theory Spec2Isabelle
  imports Complex_Main
begin

section \<open>JavaScript strings\<close>

text \<open>
  A JavaScript string is modelled as an Isabelle \<open>string\<close>. ASCII characters are themselves;
  a character outside ASCII is carried as the bytes of its UTF-8 encoding. The delimiters
  that the regular expressions of the program look for are all ASCII, and no byte of a
  multi-byte UTF-8 sequence is an ASCII byte, so scanning for them over bytes finds the same
  substrings as scanning over UTF-16 code units. Case mapping is the ASCII one: letters
  outside ASCII are left as they are.
\<close>

definition toLowerChar :: "char \<Rightarrow> char" where
  "toLowerChar c =
     (let n = (of_char c :: nat) in if 65 \<le> n \<and> n \<le> 90 then char_of (n + 32) else c)"

definition toLowerCase :: "string \<Rightarrow> string" where
  "toLowerCase s = map toLowerChar s"

fun starts_with :: "string \<Rightarrow> string \<Rightarrow> bool" where
  "starts_with [] s = True"
| "starts_with (p # ps) [] = False"
| "starts_with (p # ps) (c # cs) = (p = c \<and> starts_with ps cs)"

text \<open>\<open>String.prototype.includes\<close>: the needle occurs somewhere in the string.\<close>

fun js_includes :: "string \<Rightarrow> string \<Rightarrow> bool" where
  "js_includes [] q = (q = [])"
| "js_includes (c # cs) q = (starts_with q (c # cs) \<or> js_includes cs q)"

text \<open>
  The characters that \<open>String.prototype.trim\<close> removes (WhiteSpace and LineTerminator of
  ECMAScript), each as its UTF-8 encoding: U+0009..U+000D, U+0020, U+00A0, U+1680,
  U+2000..U+200A, U+2028, U+2029, U+202F, U+205F, U+3000, U+FEFF.
\<close>

definition js_whitespace :: "string list" where
  "js_whitespace =
    [[CHR 0x09], [CHR 0x0A], [CHR 0x0B], [CHR 0x0C], [CHR 0x0D], [CHR 0x20],
     [CHR 0xC2, CHR 0xA0],
     [CHR 0xE1, CHR 0x9A, CHR 0x80],
     [CHR 0xE2, CHR 0x80, CHR 0x80], [CHR 0xE2, CHR 0x80, CHR 0x81],
     [CHR 0xE2, CHR 0x80, CHR 0x82], [CHR 0xE2, CHR 0x80, CHR 0x83],
     [CHR 0xE2, CHR 0x80, CHR 0x84], [CHR 0xE2, CHR 0x80, CHR 0x85],
     [CHR 0xE2, CHR 0x80, CHR 0x86], [CHR 0xE2, CHR 0x80, CHR 0x87],
     [CHR 0xE2, CHR 0x80, CHR 0x88], [CHR 0xE2, CHR 0x80, CHR 0x89],
     [CHR 0xE2, CHR 0x80, CHR 0x8A],
     [CHR 0xE2, CHR 0x80, CHR 0xA8], [CHR 0xE2, CHR 0x80, CHR 0xA9],
     [CHR 0xE2, CHR 0x80, CHR 0xAF],
     [CHR 0xE2, CHR 0x81, CHR 0x9F],
     [CHR 0xE3, CHR 0x80, CHR 0x80],
     [CHR 0xEF, CHR 0xBB, CHR 0xBF]]"

text \<open>Remove, from the front, every leading occurrence of one of the given non-empty words.\<close>

function stripLeading :: "string list \<Rightarrow> string \<Rightarrow> string" where
  "stripLeading ws s =
     (case find (\<lambda>w. w \<noteq> [] \<and> starts_with w s) ws of
        None \<Rightarrow> s
      | Some w \<Rightarrow> stripLeading ws (drop (length w) s))"
  by pat_completeness auto

lemma starts_with_length: "starts_with w s \<Longrightarrow> length w \<le> length s"
  by (induction w s rule: starts_with.induct) auto

termination stripLeading
proof (relation "measure (\<lambda>(ws, s). length s)")
  show "wf (measure (\<lambda>(ws, s). length s))" by simp
next
  fix ws :: "string list" and s w :: string
  assume "find (\<lambda>w. w \<noteq> [] \<and> starts_with w s) ws = Some w"
  then have w: "w \<noteq> []" "starts_with w s"
    by (auto simp: find_Some_iff)
  then have "0 < length w" "length w \<le> length s"
    using starts_with_length by auto
  then have "length s - length w < length s"
    by arith
  then show "((ws, drop (length w) s), (ws, s)) \<in> measure (\<lambda>(ws, s). length s)"
    by simp
qed

declare stripLeading.simps [simp del]

definition trimStart :: "string \<Rightarrow> string" where
  "trimStart s = stripLeading js_whitespace s"

definition trimEnd :: "string \<Rightarrow> string" where
  "trimEnd s = rev (stripLeading (map rev js_whitespace) (rev s))"

definition trim :: "string \<Rightarrow> string" where
  "trim s = trimEnd (trimStart s)"

section \<open>Matching the regular expressions of the program\<close>

text \<open>
  A pattern is written as a function that matches at the head of a string and returns
  what it captures together with the rest of the string behind the match. The pieces
  below are the ones the patterns of the program are made of.
\<close>

text \<open>A literal, and a literal under the flag \<open>i\<close>.\<close>

definition lit :: "string \<Rightarrow> string \<Rightarrow> string option" where
  "lit p s = (if starts_with p s then Some (drop (length p) s) else None)"

definition lit_ci :: "string \<Rightarrow> string \<Rightarrow> string option" where
  "lit_ci p s =
     (if toLowerCase (take (length p) s) = toLowerCase p then Some (drop (length p) s)
      else None)"

text \<open>
  \<open>[class]*\<close> followed by the rest \<open>k\<close> of the pattern: greedy, the longest run of the
  class is tried first and one character is given back at a time until \<open>k\<close> matches.
\<close>

fun greedy_then :: "(char \<Rightarrow> bool) \<Rightarrow> (string \<Rightarrow> 'a option) \<Rightarrow> string \<Rightarrow> 'a option" where
  "greedy_then P k [] = k []"
| "greedy_then P k (c # cs) =
     (if P c then (case greedy_then P k cs of Some r \<Rightarrow> Some r | None \<Rightarrow> k (c # cs))
      else k (c # cs))"

text \<open>
  \<open>([\s\S]*?)\<close> followed by the rest \<open>k\<close> of the pattern: lazy, the shortest prefix behind
  which \<open>k\<close> matches is captured.
\<close>

fun lazy_then :: "(string \<Rightarrow> 'a option) \<Rightarrow> string \<Rightarrow> (string \<times> 'a) option" where
  "lazy_then k [] = map_option (\<lambda>r. ([], r)) (k [])"
| "lazy_then k (c # cs) =
     (case k (c # cs) of
        Some r \<Rightarrow> Some ([], r)
      | None \<Rightarrow> map_option (\<lambda>(b, r). (c # b, r)) (lazy_then k cs))"

text \<open>
  \<open><tag>([^<]+)</tag>\<close>: the captured text and the rest. The run \<open>[^<]+\<close> is followed by a
  \<open><\<close>, so only the longest run can match.
\<close>

definition element_text :: "bool \<Rightarrow> string \<Rightarrow> string \<Rightarrow> (string \<times> string) option" where
  "element_text ci tag s =
     (case (if ci then lit_ci else lit) (''<'' @ tag @ ''>'') s of
        None \<Rightarrow> None
      | Some s1 \<Rightarrow>
          let v = takeWhile (\<lambda>c. c \<noteq> CHR ''<'') s1 in
          if v = [] then None
          else (case (if ci then lit_ci else lit) (''</'' @ tag @ ''>'')
                        (dropWhile (\<lambda>c. c \<noteq> CHR ''<'') s1) of
                  None \<Rightarrow> None
                | Some rest \<Rightarrow> Some (v, rest)))"

text \<open>
  \<open>name="([^"]+)"\<close> (the attribute name is given with its \<open>="\<close>): the captured value and
  the rest behind the closing quote.
\<close>

definition quoted_value :: "bool \<Rightarrow> string \<Rightarrow> string \<Rightarrow> (string \<times> string) option" where
  "quoted_value ci name s =
     (case (if ci then lit_ci else lit) name s of
        None \<Rightarrow> None
      | Some s1 \<Rightarrow>
          let v = takeWhile (\<lambda>c. c \<noteq> CHR 0x22) s1;
              r = dropWhile (\<lambda>c. c \<noteq> CHR 0x22) s1
          in if v = [] \<or> r = [] then None else Some (v, tl r))"

text \<open>
  The first match of a pattern in a string (\<open>String.prototype.match\<close> and \<open>RegExp.exec\<close>
  without the flag \<open>g\<close>): the pattern is tried at every position from the left.
\<close>

fun exec_first :: "(string \<Rightarrow> ('a \<times> string) option) \<Rightarrow> string \<Rightarrow> 'a option" where
  "exec_first m [] = map_option fst (m [])"
| "exec_first m (c # cs) =
     (case m (c # cs) of Some (x, rest) \<Rightarrow> Some x | None \<Rightarrow> exec_first m cs)"

text \<open>
  All matches of a pattern in a string, from the left (the flag \<open>g\<close>): after a match the
  search goes on at the end of the match. The patterns used here match no empty string, so
  the rest behind a match is shorter than the string matched.
\<close>

fun exec_all :: "(string \<Rightarrow> ('a \<times> string) option) \<Rightarrow> string \<Rightarrow> 'a list" where
  "exec_all m [] = []"
| "exec_all m (c # cs) =
     (case m (c # cs) of
        None \<Rightarrow> exec_all m cs
      | Some (x, rest) \<Rightarrow> x # exec_all m (drop (length cs - length rest) cs))"

text \<open>\<open>Array.prototype.join\<close>.\<close>

fun join :: "string \<Rightarrow> string list \<Rightarrow> string" where
  "join sep [] = []"
| "join sep [x] = x"
| "join sep (x # y # ys) = x @ sep @ join sep (y # ys)"

text \<open>\<open>s.split(c)\<close> for a separator of one character: the pieces between the separators.\<close>

fun split_char :: "char \<Rightarrow> string \<Rightarrow> string list" where
  "split_char sep [] = [[]]"
| "split_char sep (c # cs) =
     (if c = sep then [] # split_char sep cs
      else (case split_char sep cs of
              [] \<Rightarrow> [[c]]
            | p # ps \<Rightarrow> (c # p) # ps))"

text \<open>The decimal digits of a natural number.\<close>

fun show_nat :: "nat \<Rightarrow> string" where
  "show_nat n =
     (if n < 10 then [char_of (48 + n)]
      else show_nat (n div 10) @ [char_of (48 + n mod 10)])"

declare show_nat.simps [simp del]

definition show_int :: "int \<Rightarrow> string" where
  "show_int i = (if i < 0 then CHR ''-'' # show_nat (nat (- i)) else show_nat (nat i))"

section \<open>The processed message (types/messages.ts)\<close>

datatype MessageKind = Text | System | Call | Notice | Media

record ProcessedMessage =
  pm_id :: string
  pm_displayName :: "string option"
  timestamp :: string
  pm_content :: string
  pm_type :: MessageKind
  pm_from :: string
  isOwner :: bool
  originalMessageType :: string
  mediaUrl :: "string option"

section \<open>JSON values and \<open>JSON.parse\<close>\<close>

text \<open>
  The value that \<open>JSON.parse\<close> returns. A number is kept as the exact rational that its
  text denotes (no rounding to a double); an object keeps its members in the order of the
  text, and a lookup takes the last member of a name, as the built-in does.
\<close>

datatype json =
    JNull
  | JBool bool
  | JNum rat
  | JStr string
  | JArr "json list"
  | JObj "(string \<times> json) list"

definition is_digit :: "char \<Rightarrow> bool" where
  "is_digit c = (48 \<le> (of_char c :: nat) \<and> (of_char c :: nat) \<le> 57)"

definition digit_val :: "char \<Rightarrow> nat" where
  "digit_val c = of_char c - 48"

text \<open>The number that a string of decimal digits denotes (0 for the empty string).\<close>

definition digits_val :: "string \<Rightarrow> nat" where
  "digits_val ds = foldl (\<lambda>acc d. 10 * acc + digit_val d) 0 ds"

text \<open>
  An exponent part \<open>[eE][+-]?[0-9]+\<close> at the head of the string: its value and the rest
  behind it; \<open>None\<close> when there is no complete exponent part.
\<close>

definition exponent_part :: "string \<Rightarrow> (int \<times> string) option" where
  "exponent_part s =
     (case s of
        [] \<Rightarrow> None
      | e # r \<Rightarrow>
          if e = CHR ''e'' \<or> e = CHR ''E'' then
            (let neg = (r \<noteq> [] \<and> hd r = CHR ''-'');
                 r1 = (if r \<noteq> [] \<and> (hd r = CHR ''-'' \<or> hd r = CHR ''+'') then tl r else r);
                 ds = takeWhile is_digit r1
             in if ds = [] then None
                else Some (if neg then - int (digits_val ds) else int (digits_val ds),
                           dropWhile is_digit r1))
          else None)"

definition pow10 :: "int \<Rightarrow> rat" where
  "pow10 e = (if 0 \<le> e then 10 ^ nat e else 1 / 10 ^ nat (- e))"

text \<open>
  A JSON number at the head of the string:
  \<open>-?(0|[1-9][0-9]*)(\.[0-9]+)?([eE][+-]?[0-9]+)?\<close>.
\<close>

definition json_number :: "string \<Rightarrow> (rat \<times> string) option" where
  "json_number s =
     (let neg = (s \<noteq> [] \<and> hd s = CHR ''-'');
          s1 = (if neg then tl s else s);
          ip = (if s1 \<noteq> [] \<and> hd s1 = CHR ''0'' then [CHR ''0''] else takeWhile is_digit s1);
          r1 = drop (length ip) s1
      in if ip = [] then None
         else
           let has_frac = (r1 \<noteq> [] \<and> hd r1 = CHR ''.'');
               fp = (if has_frac then takeWhile is_digit (tl r1) else []);
               r2 = (if has_frac then dropWhile is_digit (tl r1) else r1)
           in if has_frac \<and> fp = [] then None
              else
                let mant = of_nat (digits_val (ip @ fp)) / 10 ^ length fp;
                    ex = (if r2 \<noteq> [] \<and> (hd r2 = CHR ''e'' \<or> hd r2 = CHR ''E'')
                          then exponent_part r2 else Some (0, r2))
                in case ex of
                     None \<Rightarrow> None
                   | Some (e, r3) \<Rightarrow> Some ((if neg then - mant else mant) * pow10 e, r3))"

text \<open>The UTF-8 bytes of a code point.\<close>

definition utf8 :: "nat \<Rightarrow> string" where
  "utf8 n =
     (if n < 0x80 then [char_of n]
      else if n < 0x800 then [char_of (0xC0 + n div 64), char_of (0x80 + n mod 64)]
      else if n < 0x10000 then
        [char_of (0xE0 + n div 4096), char_of (0x80 + (n div 64) mod 64),
         char_of (0x80 + n mod 64)]
      else
        [char_of (0xF0 + n div 262144), char_of (0x80 + (n div 4096) mod 64),
         char_of (0x80 + (n div 64) mod 64), char_of (0x80 + n mod 64)])"

definition hex_val :: "char \<Rightarrow> nat option" where
  "hex_val c =
     (let n = (of_char c :: nat) in
      if 48 \<le> n \<and> n \<le> 57 then Some (n - 48)
      else if 65 \<le> n \<and> n \<le> 70 then Some (n - 55)
      else if 97 \<le> n \<and> n \<le> 102 then Some (n - 87)
      else None)"

text \<open>Four hexadecimal digits at the head of the string, as a number.\<close>

definition hex4 :: "string \<Rightarrow> nat option" where
  "hex4 s =
     (if length s < 4 then None
      else case (hex_val (s ! 0), hex_val (s ! 1), hex_val (s ! 2), hex_val (s ! 3)) of
             (Some a, Some b, Some c, Some d) \<Rightarrow> Some (((a * 16 + b) * 16 + c) * 16 + d)
           | _ \<Rightarrow> None)"

text \<open>The escapes of one character: \<open>\"\<close>, \<open>\\\<close>, \<open>\/\<close>, \<open>\b\<close>, \<open>\f\<close>, \<open>\n\<close>, \<open>\r\<close>, \<open>\t\<close>.\<close>

definition simple_escape :: "char \<Rightarrow> char option" where
  "simple_escape e =
     (if e = CHR 0x22 then Some (CHR 0x22)
      else if e = CHR 0x5C then Some (CHR 0x5C)
      else if e = CHR ''/'' then Some (CHR ''/'')
      else if e = CHR ''b'' then Some (CHR 0x08)
      else if e = CHR ''f'' then Some (CHR 0x0C)
      else if e = CHR ''n'' then Some (CHR 0x0A)
      else if e = CHR ''r'' then Some (CHR 0x0D)
      else if e = CHR ''t'' then Some (CHR 0x09)
      else None)"

text \<open>
  The characters of a JSON string behind its opening quote, up to the closing quote: the
  string and the rest behind the closing quote. A \<open>\u\<close> escape gives the UTF-8 bytes of its
  code unit; a high surrogate followed by a low one gives the bytes of the pair's code point.
\<close>

fun json_string :: "string \<Rightarrow> (string \<times> string) option" where
  "json_string [] = None"
| "json_string (c # cs) =
     (if c = CHR 0x22 then Some ([], cs)
      else if c = CHR 0x5C then
        (case cs of
           [] \<Rightarrow> None
         | e # r \<Rightarrow>
             if e = CHR ''u'' then
               (case hex4 r of
                  None \<Rightarrow> None
                | Some hi \<Rightarrow>
                    (case (if 0xD800 \<le> hi \<and> hi < 0xDC00 \<and> starts_with [CHR 0x5C, CHR ''u''] (drop 4 r)
                           then hex4 (drop 6 r) else None) of
                       Some lo \<Rightarrow>
                         if 0xDC00 \<le> lo \<and> lo < 0xE000 then
                           map_option (\<lambda>(t, rest).
                               (utf8 (0x10000 + (hi - 0xD800) * 0x400 + (lo - 0xDC00)) @ t, rest))
                             (json_string (drop 10 r))
                         else map_option (\<lambda>(t, rest). (utf8 hi @ t, rest)) (json_string (drop 4 r))
                     | None \<Rightarrow>
                         map_option (\<lambda>(t, rest). (utf8 hi @ t, rest)) (json_string (drop 4 r))))
             else
               (case simple_escape e of
                  None \<Rightarrow> None
                | Some x \<Rightarrow> map_option (\<lambda>(t, rest). (x # t, rest)) (json_string r)))
      else if (of_char c :: nat) < 0x20 then None
      else map_option (\<lambda>(t, rest). (c # t, rest)) (json_string cs))"

definition json_ws :: "char \<Rightarrow> bool" where
  "json_ws c = (c = CHR 0x20 \<or> c = CHR 0x09 \<or> c = CHR 0x0A \<or> c = CHR 0x0D)"

definition skip_ws :: "string \<Rightarrow> string" where
  "skip_ws s = dropWhile json_ws s"

text \<open>
  The recursive descent over values. The first argument bounds the number of nested
  calls; every second call has read a character, so twice the length of the text is
  enough and the bound is never what makes a text fail.
\<close>

fun json_value :: "nat \<Rightarrow> string \<Rightarrow> (json \<times> string) option"
  and json_elements :: "nat \<Rightarrow> string \<Rightarrow> (json list \<times> string) option"
  and json_members :: "nat \<Rightarrow> string \<Rightarrow> ((string \<times> json) list \<times> string) option"
where
  "json_value 0 s = None"
| "json_value (Suc n) s =
     (case skip_ws s of
        [] \<Rightarrow> None
      | c # cs \<Rightarrow>
          if c = CHR ''{'' then
            (if skip_ws cs \<noteq> [] \<and> hd (skip_ws cs) = CHR ''}''
             then Some (JObj [], tl (skip_ws cs))
             else map_option (\<lambda>(kvs, r). (JObj kvs, r)) (json_members n cs))
          else if c = CHR ''['' then
            (if skip_ws cs \<noteq> [] \<and> hd (skip_ws cs) = CHR '']''
             then Some (JArr [], tl (skip_ws cs))
             else map_option (\<lambda>(vs, r). (JArr vs, r)) (json_elements n cs))
          else if c = CHR 0x22 then map_option (\<lambda>(t, r). (JStr t, r)) (json_string cs)
          else if starts_with ''true'' (c # cs) then Some (JBool True, drop 3 cs)
          else if starts_with ''false'' (c # cs) then Some (JBool False, drop 4 cs)
          else if starts_with ''null'' (c # cs) then Some (JNull, drop 3 cs)
          else map_option (\<lambda>(x, r). (JNum x, r)) (json_number (c # cs)))"
| "json_elements 0 s = None"
| "json_elements (Suc n) s =
     (case json_value n s of
        None \<Rightarrow> None
      | Some (v, r) \<Rightarrow>
          (case skip_ws r of
             [] \<Rightarrow> None
           | d # r' \<Rightarrow>
               if d = CHR '','' then map_option (\<lambda>(vs, r''). (v # vs, r'')) (json_elements n r')
               else if d = CHR '']'' then Some ([v], r')
               else None))"
| "json_members 0 s = None"
| "json_members (Suc n) s =
     (case skip_ws s of
        [] \<Rightarrow> None
      | q # ks \<Rightarrow>
          if q \<noteq> CHR 0x22 then None
          else
            (case json_string ks of
               None \<Rightarrow> None
             | Some (k, r) \<Rightarrow>
                 (case skip_ws r of
                    [] \<Rightarrow> None
                  | colon # r1 \<Rightarrow>
                      if colon \<noteq> CHR '':'' then None
                      else
                        (case json_value n r1 of
                           None \<Rightarrow> None
                         | Some (v, r2) \<Rightarrow>
                             (case skip_ws r2 of
                                [] \<Rightarrow> None
                              | d # r3 \<Rightarrow>
                                  if d = CHR '','' then
                                    map_option (\<lambda>(kvs, r4). ((k, v) # kvs, r4)) (json_members n r3)
                                  else if d = CHR ''}'' then Some ([(k, v)], r3)
                                  else None)))))"

text \<open>\<open>JSON.parse\<close>: \<open>None\<close> is the SyntaxError.\<close>

definition JSON_parse :: "string \<Rightarrow> json option" where
  "JSON_parse s =
     (case json_value (2 * length s + 2) s of
        None \<Rightarrow> None
      | Some (v, r) \<Rightarrow> if skip_ws r = [] then Some v else None)"

subsection \<open>Reading a parsed value\<close>

text \<open>
  In the functions below a \<open>json option\<close> is a JavaScript value that may be \<open>undefined\<close>
  (\<open>None\<close>). \<open>js_prop k v\<close> is \<open>v.k\<close> and \<open>js_index0 v\<close> is \<open>v[0]\<close>, for a value \<open>v\<close> that is
  not \<open>null\<close> and a name \<open>k\<close> that no prototype defines: only an object has such a
  property; an array, an object with a member \<open>0\<close> and a non-empty string have an element 0.
\<close>

definition js_prop :: "string \<Rightarrow> json \<Rightarrow> json option" where
  "js_prop k v = (case v of JObj kvs \<Rightarrow> map_of (rev kvs) k | _ \<Rightarrow> None)"

definition js_index0 :: "json \<Rightarrow> json option" where
  "js_index0 v =
     (case v of
        JArr xs \<Rightarrow> (case xs of [] \<Rightarrow> None | x # _ \<Rightarrow> Some x)
      | JObj kvs \<Rightarrow> map_of (rev kvs) ''0''
      | JStr s \<Rightarrow> (if s = [] then None else Some (JStr (take 1 s)))
      | _ \<Rightarrow> None)"

text \<open>Optional chaining \<open>v?.\<close>: \<open>undefined\<close> when \<open>v\<close> is \<open>undefined\<close> or \<open>null\<close>.\<close>

definition opt_chain :: "json option \<Rightarrow> (json \<Rightarrow> json option) \<Rightarrow> json option" where
  "opt_chain v f = (case v of None \<Rightarrow> None | Some JNull \<Rightarrow> None | Some x \<Rightarrow> f x)"

text \<open>Truthiness of a value.\<close>

definition truthy :: "json option \<Rightarrow> bool" where
  "truthy v =
     (case v of
        None \<Rightarrow> False
      | Some JNull \<Rightarrow> False
      | Some (JBool b) \<Rightarrow> b
      | Some (JNum x) \<Rightarrow> x \<noteq> 0
      | Some (JStr s) \<Rightarrow> s \<noteq> []
      | Some _ \<Rightarrow> True)"

text \<open>
  A property that the TypeScript interfaces declare as an optional string (\<open>title\<close>,
  \<open>text\<close>, \<open>translation\<close>): the string when the value is one. A JSON value of another type
  in such a place is outside the declared input and is read as absent.
\<close>

definition as_string :: "json option \<Rightarrow> string option" where
  "as_string v = (case v of Some (JStr s) \<Rightarrow> Some s | _ \<Rightarrow> None)"

text \<open>\<open>a || b\<close> for an optional string \<open>a\<close>: \<open>b\<close> when \<open>a\<close> is \<open>undefined\<close> or empty.\<close>

definition or_else :: "string option \<Rightarrow> string \<Rightarrow> string" where
  "or_else a b = (case a of None \<Rightarrow> b | Some s \<Rightarrow> if s = [] then b else s)"

section \<open>The raw message (types/messages.ts)\<close>

record Message =
  msg_id :: string
  msg_displayName :: "string option"
  originalarrivaltime :: string
  messagetype :: string
  version :: int
  msg_content :: string
  conversationid :: string
  msg_from :: string
  properties :: "json option"
  amsreferences :: "json option"

section \<open>Display names (utils/displayName.ts)\<close>

text \<open>
  The characters that \<open>.\<close> does not match: the line terminators U+000A, U+000D, U+2028 and
  U+2029.
\<close>

definition has_line_terminator :: "string \<Rightarrow> bool" where
  "has_line_terminator s =
     (CHR 0x0A \<in> set s \<or> CHR 0x0D \<in> set s
      \<or> js_includes s [CHR 0xE2, CHR 0x80, CHR 0xA8]
      \<or> js_includes s [CHR 0xE2, CHR 0x80, CHR 0xA9])"

text \<open>
  \<open>displayName.match(/^(\d+):(.+)$/)\<close>: digits, a colon and a non-empty rest without a
  line terminator; the result is the rest.
\<close>

definition cleanDisplayName :: "string option \<Rightarrow> string option" where
  "cleanDisplayName displayName =
     (case displayName of
        None \<Rightarrow> None
      | Some n \<Rightarrow>
          if n = [] then None
          else
            let ds = takeWhile is_digit n;
                r = dropWhile is_digit n
            in if ds \<noteq> [] \<and> r \<noteq> [] \<and> hd r = CHR '':'' \<and> tl r \<noteq> []
                  \<and> \<not> has_line_terminator (tl r)
               then Some (tl r)
               else Some n)"

section \<open>Media identifiers (utils/mediaUtils.ts)\<close>

definition is_id_char :: "char \<Rightarrow> bool" where
  "is_id_char c =
     (let n = (of_char c :: nat) in
      (97 \<le> n \<and> n \<le> 122) \<or> (65 \<le> n \<and> n \<le> 90) \<or> (48 \<le> n \<and> n \<le> 57) \<or> c = CHR ''-'')"

text \<open>\<open>([a-zA-Z0-9-]+)\<close> at the head of a string.\<close>

definition id_run :: "string \<Rightarrow> (string \<times> string) option" where
  "id_run s =
     (if takeWhile is_id_char s = [] then None
      else Some (takeWhile is_id_char s, dropWhile is_id_char s))"

text \<open>
  \<open>/<URIObject[^>]*uri="https:\/\/api\.asm\.skype\.com\/v1\/objects\/([a-zA-Z0-9-]+)"/\<close>
\<close>

definition uriObjectPattern :: "string \<Rightarrow> (string \<times> string) option" where
  \<open>uriObjectPattern s =
     (case lit ''<URIObject'' s of
        None \<Rightarrow> None
      | Some s1 \<Rightarrow>
          greedy_then (\<lambda>c. c \<noteq> CHR ''>'')
            (\<lambda>s2. case lit ''uri="https://api.asm.skype.com/v1/objects/'' s2 of
                     None \<Rightarrow> None
                   | Some s3 \<Rightarrow>
                       (case id_run s3 of
                          None \<Rightarrow> None
                        | Some (i, r) \<Rightarrow>
                            (case lit ''"'' r of None \<Rightarrow> None | Some rest \<Rightarrow> Some (i, rest))))
            s1)\<close>

text \<open>\<open>/[?&]pic=([a-zA-Z0-9-]+)/\<close> and \<open>/[?&]file=([a-zA-Z0-9-]+)/\<close>\<close>

definition paramPattern :: "string \<Rightarrow> string \<Rightarrow> (string \<times> string) option" where
  "paramPattern name s =
     (case s of
        [] \<Rightarrow> None
      | c # cs \<Rightarrow>
          if c = CHR ''?'' \<or> c = CHR ''&'' then
            (case lit (name @ ''='') cs of None \<Rightarrow> None | Some r \<Rightarrow> id_run r)
          else None)"

definition picPattern :: "string \<Rightarrow> (string \<times> string) option" where
  "picPattern = paramPattern ''pic''"

definition filePattern :: "string \<Rightarrow> (string \<times> string) option" where
  "filePattern = paramPattern ''file''"

definition extractMediaId :: "string \<Rightarrow> string option" where
  "extractMediaId content =
     (case exec_first uriObjectPattern content of
        Some i \<Rightarrow> Some i
      | None \<Rightarrow>
          (case exec_first picPattern content of
             Some i \<Rightarrow> Some i
           | None \<Rightarrow> exec_first filePattern content))"

section \<open>The message processor (utils/messageProcessor.ts)\<close>

subsection \<open>What the processor takes from outside\<close>

text \<open>
  The patterns of \<open>CONTENT_PATTERNS\<close> (constants/messageProcessor.ts), in the order of the
  table: the \<open>ss\<close> emoji tags, the links, the bold tags, the mentions, the location and
  context tags, the empty emoji tags, the Bing response and the attribution tags.
\<close>

datatype ContentPattern =
    EmojiText | Link | Bold | Mention | LocationContext | EmptyEmoji | BingResponse
  | Attribution

definition CONTENT_PATTERNS :: "ContentPattern list" where
  "CONTENT_PATTERNS =
     [EmojiText, Link, Bold, Mention, LocationContext, EmptyEmoji, BingResponse, Attribution]"

text \<open>
  \<open>parseSkypeEmoji\<close> (utils/skypeEmoji.ts), the replacement of one pattern of the table by
  its replacement text (\<open>parsed.replace(pattern, replacement)\<close>) and
  \<open>DOMPurify.sanitize\<close> under \<open>PURIFY_CONFIG\<close> are taken as they come: the processor only
  passes strings through them.
\<close>

record Externals =
  parseSkypeEmoji :: "string \<Rightarrow> string"
  replacePattern :: "ContentPattern \<Rightarrow> string \<Rightarrow> string"
  sanitize :: "string \<Rightarrow> string"

text \<open>
  The context of one pass. Of the map \<open>mediaFiles\<close> only its presence is looked at; it is
  kept as the list of its keys.
\<close>

record MessageProcessorContext =
  userId :: string
  swapRoles :: bool
  mediaFiles :: "string list option"
  skipIds :: "string set"

subsection \<open>Building a processed message\<close>

definition createBaseMessage ::
  "Message \<Rightarrow> MessageProcessorContext \<Rightarrow> string \<Rightarrow> MessageKind \<Rightarrow> ProcessedMessage" where
  "createBaseMessage message context content type =
     \<lparr>pm_id = msg_id message,
      pm_displayName = cleanDisplayName (msg_displayName message),
      timestamp = originalarrivaltime message,
      pm_content = content,
      pm_type = type,
      pm_from = msg_from message,
      isOwner = (if swapRoles context then msg_from message \<noteq> userId context
                 else msg_from message = userId context),
      originalMessageType = messagetype message,
      mediaUrl = None\<rparr>"

definition parseMessageContent :: "Externals \<Rightarrow> string \<Rightarrow> string" where
  "parseMessageContent ext content =
     (if content = [] then []
      else sanitize ext
             (foldl (\<lambda>parsed pattern. replacePattern ext pattern parsed)
                (parseSkypeEmoji ext content) CONTENT_PATTERNS))"

subsection \<open>Translations\<close>

text \<open>
  \<open>translationData.translations[0]?.translation || null\<close> inside \<open>try\<close>: a parse error, a
  \<open>null\<close> value and a value without \<open>translations\<close> all end in \<open>null\<close>, the last two by the
  TypeError that the \<open>catch\<close> takes.
\<close>

definition parseTranslationContent :: "string \<Rightarrow> string option" where
  "parseTranslationContent content =
     (case JSON_parse content of
        None \<Rightarrow> None
      | Some JNull \<Rightarrow> None
      | Some translationData \<Rightarrow>
          (case js_prop ''translations'' translationData of
             None \<Rightarrow> None
           | Some JNull \<Rightarrow> None
           | Some translations \<Rightarrow>
               (case as_string (opt_chain (js_index0 translations) (js_prop ''translation'')) of
                  None \<Rightarrow> None
                | Some t \<Rightarrow> if t = [] then None else Some t)))"

definition handleTranslation ::
  "Externals \<Rightarrow> Message \<Rightarrow> Message option \<Rightarrow> MessageProcessorContext
     \<Rightarrow> ProcessedMessage option \<times> MessageProcessorContext" where
  "handleTranslation ext message nextMessage context =
     (let isFromUserId = (msg_from message = userId context);
          nextIsRichText =
            (case nextMessage of None \<Rightarrow> False | Some n \<Rightarrow> messagetype n = ''RichText'')
      in if isFromUserId \<and> nextIsRichText then
           (case nextMessage of
              None \<Rightarrow> (None, context)
            | Some n \<Rightarrow>
                (Some (createBaseMessage (n\<lparr>msg_from := msg_from message\<rparr>)
                         context (parseMessageContent ext (msg_content n)) Text),
                 context\<lparr>skipIds := insert (msg_id n) (skipIds context)\<rparr>))
         else
           let content = or_else (parseTranslationContent (msg_content message))
                           (msg_content message);
               context' =
                 (case nextMessage of
                    None \<Rightarrow> context
                  | Some n \<Rightarrow>
                      if messagetype n = ''RichText''
                      then context\<lparr>skipIds := insert (msg_id n) (skipIds context)\<rparr>
                      else context)
           in (Some (createBaseMessage message context (parseMessageContent ext content) Text),
               context'))"

subsection \<open>Files and media\<close>

text \<open>
  \<open>x.toFixed(1)\<close> for a number that is not negative, on the exact value: the nearest
  number with one decimal, the larger one of two. The size that \<open>parseInt\<close> reads from a
  run of digits is likewise taken exactly.
\<close>

definition toFixed1 :: "rat \<Rightarrow> string" where
  "toFixed1 x =
     (let n = nat \<lfloor>10 * x + 1 / 2\<rfloor> in show_nat (n div 10) @ ''.'' @ show_nat (n mod 10))"

definition formatFileSize :: "nat \<Rightarrow> string" where
  "formatFileSize fileSizeBytes =
     (let fileSizeKB = (of_nat fileSizeBytes :: rat) / 1024;
          fileSizeMB = fileSizeKB / 1024
      in if fileSizeMB \<ge> 1 then toFixed1 fileSizeMB @ '' MB''
         else toFixed1 fileSizeKB @ '' KB'')"

text \<open>
  The tail \<open>(?:\s*\/>|><\/Name>)\<close> of the two patterns below: whitespace and \<open>/>\<close>, or
  \<open>></Name>\<close>.
\<close>

definition closing :: "string \<Rightarrow> string \<Rightarrow> string option" where
  "closing name s =
     (case lit ''/>'' (trimStart s) of
        Some rest \<Rightarrow> Some rest
      | None \<Rightarrow> lit (''></'' @ name @ ''>'') s)"

text \<open>\<open>/<OriginalName v="([^"]+)"(?:\s*\/>|><\/OriginalName>)/\<close>\<close>

definition originalNamePattern :: "string \<Rightarrow> (string \<times> string) option" where
  \<open>originalNamePattern s =
     (case quoted_value False ''<OriginalName v="'' s of
        None \<Rightarrow> None
      | Some (v, r) \<Rightarrow> map_option (\<lambda>rest. (v, rest)) (closing ''OriginalName'' r))\<close>

text \<open>\<open>/<FileSize v="(\d+)"(?:\s*\/>|><\/FileSize>)/\<close>\<close>

definition fileSizePattern :: "string \<Rightarrow> (string \<times> string) option" where
  \<open>fileSizePattern s =
     (case quoted_value False ''<FileSize v="'' s of
        None \<Rightarrow> None
      | Some (v, r) \<Rightarrow>
          if list_all is_digit v then map_option (\<lambda>rest. (v, rest)) (closing ''FileSize'' r)
          else None)\<close>

text \<open>\<open>/<URIObject[^>]*type="([^"]+)"/\<close>\<close>

definition uriTypePattern :: "string \<Rightarrow> (string \<times> string) option" where
  \<open>uriTypePattern s =
     (case lit ''<URIObject'' s of
        None \<Rightarrow> None
      | Some s1 \<Rightarrow> greedy_then (\<lambda>c. c \<noteq> CHR ''>'') (quoted_value False ''type="'') s1)\<close>

definition PAPERCLIP :: string where
  "PAPERCLIP = [CHR 0xF0, CHR 0x9F, CHR 0x93, CHR 0x8E]"

definition VIDEO_CAMERA :: string where
  "VIDEO_CAMERA = [CHR 0xF0, CHR 0x9F, CHR 0x93, CHR 0xB9]"

definition CAMERA :: string where
  "CAMERA = [CHR 0xF0, CHR 0x9F, CHR 0x93, CHR 0xB7]"

definition parseGenericFile :: "string \<Rightarrow> string" where
  "parseGenericFile content =
     (let filename = or_else (exec_first originalNamePattern content) ''Unknown file'' in
      case exec_first fileSizePattern content of
        Some digits \<Rightarrow>
          PAPERCLIP @ '' <em>'' @ filename @ ''</em> (''
            @ formatFileSize (digits_val digits) @ '')''
      | None \<Rightarrow> PAPERCLIP @ '' <em>'' @ filename @ ''</em>'')"

text \<open>\<open>/\.(mp4|avi|mov|wmv|flv|webm|mkv|m4v)$/i.test(filename)\<close>\<close>

definition has_video_extension :: "string \<Rightarrow> bool" where
  "has_video_extension filename =
     (\<exists>e \<in> set [''mp4'', ''avi'', ''mov'', ''wmv'', ''flv'', ''webm'', ''mkv'', ''m4v''].
        starts_with (rev (''.'' @ e)) (rev (toLowerCase filename)))"

definition parseMediaFileInfo :: "string \<Rightarrow> string" where
  "parseMediaFileInfo content =
     (let filename = or_else (exec_first originalNamePattern content) ''Unknown file'';
          type = toLowerCase (or_else (exec_first uriTypePattern content) []);
          isVideo = (starts_with ''video'' type \<or> has_video_extension filename);
          icon = (if isVideo then VIDEO_CAMERA else CAMERA)
      in case exec_first fileSizePattern content of
           Some digits \<Rightarrow>
             icon @ '' <em>'' @ filename @ ''</em> ('' @ formatFileSize (digits_val digits) @ '')''
         | None \<Rightarrow> icon @ '' <em>'' @ filename @ ''</em>'')"

definition handleMediaMessage ::
  "Externals \<Rightarrow> Message \<Rightarrow> MessageProcessorContext \<Rightarrow> ProcessedMessage" where
  "handleMediaMessage ext message context =
     (let mediaId = extractMediaId (msg_content message);
          hasMedia = (mediaId \<noteq> None \<and> mediaId \<noteq> Some [] \<and> mediaFiles context \<noteq> None);
          content = (if hasMedia then parseMessageContent ext (msg_content message)
                     else parseMediaFileInfo (msg_content message));
          processedMessage =
            createBaseMessage message context content (if hasMedia then Media else Text)
      in if hasMedia then processedMessage\<lparr>mediaUrl := mediaId\<rparr> else processedMessage)"

definition handleSystemMessage ::
  "Message \<Rightarrow> MessageProcessorContext \<Rightarrow> string \<Rightarrow> MessageKind \<Rightarrow> ProcessedMessage" where
  "handleSystemMessage message context content type =
     (createBaseMessage message context content type)
       \<lparr>pm_displayName := None, isOwner := False\<rparr>"

subsection \<open>Thread activity\<close>

text \<open>\<open>THREAD_ACTIVITY_PATTERNS.AddMember\<close>, \<open>/<target>([^<]+)<\/target>/g\<close>: the whole match.\<close>

definition AddMember :: "string \<Rightarrow> (string \<times> string) option" where
  "AddMember s =
     map_option (\<lambda>(v, rest). (''<target>'' @ v @ ''</target>'', rest))
       (element_text False ''target'' s)"

text \<open>\<open>THREAD_ACTIVITY_PATTERNS.Value\<close>, \<open>/<value>([^<]+)<\/value>/\<close>: the captured text.\<close>

definition Value :: "string \<Rightarrow> (string \<times> string) option" where
  "Value s = element_text False ''value'' s"

text \<open>\<open>target.replace(/<\/?target>/g, "")\<close>\<close>

fun remove_target_tags :: "string \<Rightarrow> string" where
  "remove_target_tags [] = []"
| "remove_target_tags (c # cs) =
     (if starts_with ''<target>'' (c # cs) then remove_target_tags (drop 7 cs)
      else if starts_with ''</target>'' (c # cs) then remove_target_tags (drop 8 cs)
      else c # remove_target_tags cs)"

definition parseThreadActivity :: "Message \<Rightarrow> string option" where
  "parseThreadActivity message =
     (if messagetype message = ''ThreadActivity/AddMember'' then
        (let targetMatches = exec_all AddMember (msg_content message) in
         if targetMatches = [] then None
         else
           let members =
                 join '', ''
                   (filter (\<lambda>m. m \<noteq> [])
                      (map (\<lambda>target. last (split_char (CHR '':'') (remove_target_tags target)))
                         targetMatches))
           in if members \<noteq> [] then Some (''Added '' @ members @ '' to the conversation'')
              else None)
      else
        (case exec_first Value (msg_content message) of
           None \<Rightarrow> None
         | Some v \<Rightarrow>
             let value = (toLowerCase v = ''true'') in
             if messagetype message = ''ThreadActivity/HistoryDisclosedUpdate'' then
               Some (if value then ''Chat history is now visible''
                     else ''Chat history is now hidden'')
             else if messagetype message = ''ThreadActivity/JoiningEnabledUpdate'' then
               Some (if value then ''Anyone can join this conversation''
                     else ''Joining this conversation is restricted'')
             else None))"

subsection \<open>Call events\<close>

text \<open>
  A JavaScript number, on its exact value: arithmetic is that of the rationals, without
  the rounding of a double.
\<close>

datatype jsnum = NaN | Finite rat | PosInf | NegInf

text \<open>The result of \<open>Math.floor\<close>.\<close>

datatype jsint = INaN | IFinite int | IPosInf | INegInf

text \<open>
  \<open>parseFloat\<close>: leading whitespace is skipped; then the longest prefix that is a decimal
  literal (\<open>[+-]?\<close>, then \<open>Infinity\<close>, or digits with an optional fraction and an optional
  complete exponent part, or a fraction that starts with the point) is read; \<open>NaN\<close> when
  there is none.
\<close>

definition parseFloat :: "string \<Rightarrow> jsnum" where
  "parseFloat str =
     (let s = trimStart str;
          neg = (s \<noteq> [] \<and> hd s = CHR ''-'');
          s1 = (if s \<noteq> [] \<and> (hd s = CHR ''-'' \<or> hd s = CHR ''+'') then tl s else s)
      in if starts_with ''Infinity'' s1 then (if neg then NegInf else PosInf)
         else
           let ip = takeWhile is_digit s1;
               r1 = dropWhile is_digit s1;
               has_point = (r1 \<noteq> [] \<and> hd r1 = CHR ''.'');
               fp = (if has_point then takeWhile is_digit (tl r1) else []);
               r2 = (if has_point then dropWhile is_digit (tl r1) else r1)
           in if ip = [] \<and> fp = [] then NaN
              else
                let mant = of_nat (digits_val (ip @ fp)) / 10 ^ length fp;
                    e = (case exponent_part r2 of None \<Rightarrow> 0 | Some (e, r3) \<Rightarrow> e)
                in Finite ((if neg then - mant else mant) * pow10 e))"

text \<open>\<open>Math.max\<close> of two numbers.\<close>

fun Math_max :: "jsnum \<Rightarrow> jsnum \<Rightarrow> jsnum" where
  "Math_max NaN y = NaN"
| "Math_max x NaN = NaN"
| "Math_max PosInf y = PosInf"
| "Math_max x PosInf = PosInf"
| "Math_max NegInf y = y"
| "Math_max x NegInf = x"
| "Math_max (Finite x) (Finite y) = Finite (max x y)"

text \<open>\<open>x > 0\<close>, \<open>x / d\<close> and \<open>x % d\<close> for a finite \<open>d > 0\<close>, and \<open>Math.floor\<close>.\<close>

fun js_positive :: "jsnum \<Rightarrow> bool" where
  "js_positive (Finite x) = (0 < x)"
| "js_positive PosInf = True"
| "js_positive NegInf = False"
| "js_positive NaN = False"

fun js_div :: "jsnum \<Rightarrow> rat \<Rightarrow> jsnum" where
  "js_div (Finite x) d = Finite (x / d)"
| "js_div PosInf d = PosInf"
| "js_div NegInf d = NegInf"
| "js_div NaN d = NaN"

fun js_rem :: "jsnum \<Rightarrow> rat \<Rightarrow> jsnum" where
  "js_rem (Finite x) d =
     Finite (x - d * of_int (if 0 \<le> x then \<lfloor>x / d\<rfloor> else \<lceil>x / d\<rceil>))"
| "js_rem PosInf d = NaN"
| "js_rem NegInf d = NaN"
| "js_rem NaN d = NaN"

fun Math_floor :: "jsnum \<Rightarrow> jsint" where
  "Math_floor (Finite x) = IFinite \<lfloor>x\<rfloor>"
| "Math_floor PosInf = IPosInf"
| "Math_floor NegInf = INegInf"
| "Math_floor NaN = INaN"

fun jsint_positive :: "jsint \<Rightarrow> bool" where
  "jsint_positive (IFinite i) = (0 < i)"
| "jsint_positive IPosInf = True"
| "jsint_positive INegInf = False"
| "jsint_positive INaN = False"

text \<open>The text of an integral number in a template literal (plain decimal digits).\<close>

fun jsint_text :: "jsint \<Rightarrow> string" where
  "jsint_text (IFinite i) = show_int i"
| "jsint_text IPosInf = ''Infinity''"
| "jsint_text INegInf = ''-Infinity''"
| "jsint_text INaN = ''NaN''"

definition formatCallDuration :: "jsnum \<Rightarrow> string" where
  "formatCallDuration seconds =
     (let minutes = Math_floor (js_div seconds 60);
          remainingSeconds = Math_floor (js_rem seconds 60)
      in if jsint_positive minutes
         then jsint_text minutes @ ''m '' @ jsint_text remainingSeconds @ ''s''
         else jsint_text remainingSeconds @ ''s'')"

record CallParticipant =
  cp_identity :: string
  cp_name :: string

definition normaliseParticipantName :: "string \<Rightarrow> string \<Rightarrow> string" where
  "normaliseParticipantName name identity =
     (let trimmedName = (if name \<noteq> [] then trim name else []) in
      or_else (cleanDisplayName (Some trimmedName))
        (or_else (cleanDisplayName (Some identity))
           (or_else (Some trimmedName)
              (or_else (Some identity) ''Unknown participant''))))"

text \<open>
  \<open>CALL_EVENT_PATTERNS.Part\<close>,
  \<open>/<part[^>]*identity="([^"]+)"[^>]*>([\s\S]*?)<\/part>/gi\<close>: the identity and the
  body. The value \<open>[^"]+\<close> is followed by a quote and the second \<open>[^>]*\<close> by a \<open>>\<close>, so
  only their longest runs can match.
\<close>

definition Part :: "string \<Rightarrow> ((string \<times> string) \<times> string) option" where
  \<open>Part s =
     (case lit_ci ''<part'' s of
        None \<Rightarrow> None
      | Some s1 \<Rightarrow>
          greedy_then (\<lambda>c. c \<noteq> CHR ''>'')
            (\<lambda>s2. case quoted_value True ''identity="'' s2 of
                     None \<Rightarrow> None
                   | Some (identity, s3) \<Rightarrow>
                       (case dropWhile (\<lambda>c. c \<noteq> CHR ''>'') s3 of
                          [] \<Rightarrow> None
                        | gt # s4 \<Rightarrow>
                            (case lazy_then (lit_ci ''</part>'') s4 of
                               None \<Rightarrow> None
                             | Some (partBody, rest) \<Rightarrow> Some ((identity, partBody), rest))))
            s1)\<close>

text \<open>\<open>CALL_EVENT_PATTERNS.Name\<close>, \<open>/<name>([^<]+)<\/name>/i\<close>\<close>

definition Name :: "string \<Rightarrow> (string \<times> string) option" where
  "Name s = element_text True ''name'' s"

text \<open>\<open>CALL_EVENT_PATTERNS.Duration\<close>, \<open>/<duration>([^<]+)<\/duration>/i\<close>\<close>

definition Duration :: "string \<Rightarrow> (string \<times> string) option" where
  "Duration s = element_text True ''duration'' s"

text \<open>\<open>CALL_EVENT_PATTERNS.Type\<close>, \<open>/<partlist[^>]*type="([^"]+)"/i\<close>\<close>

definition Type :: "string \<Rightarrow> (string \<times> string) option" where
  \<open>Type s =
     (case lit_ci ''<partlist'' s of
        None \<Rightarrow> None
      | Some s1 \<Rightarrow> greedy_then (\<lambda>c. c \<noteq> CHR ''>'') (quoted_value True ''type="'') s1)\<close>

text \<open>
  The \<open>while\<close> loop of \<open>extractCallDetails\<close> over the matches of \<open>Part\<close>, with the three
  variables it updates.
\<close>

fun extract_loop ::
  "(string \<times> string) list \<Rightarrow> CallParticipant list \<Rightarrow> string set \<Rightarrow> jsnum
     \<Rightarrow> CallParticipant list \<times> jsnum" where
  "extract_loop [] participantData seenIdentities maxDuration = (participantData, maxDuration)"
| "extract_loop ((identity, partBody) # rest) participantData seenIdentities maxDuration =
     (let identityKey = toLowerCase identity;
          participantData' =
            (if identityKey \<notin> seenIdentities then
               participantData
                 @ [\<lparr>cp_identity = identity,
                      cp_name = normaliseParticipantName
                                  (or_else (exec_first Name partBody) []) identity\<rparr>]
             else participantData);
          maxDuration' =
            (case exec_first Duration partBody of
               None \<Rightarrow> maxDuration
             | Some d \<Rightarrow>
                 let seconds = parseFloat d in
                 if seconds \<noteq> NaN then Math_max maxDuration seconds else maxDuration)
      in extract_loop rest participantData' (insert identityKey seenIdentities) maxDuration')"

record CallDetails =
  cd_participants :: "CallParticipant list"
  cd_maxDuration :: "jsnum option"

definition extractCallDetails :: "string \<Rightarrow> CallDetails" where
  "extractCallDetails content =
     (case extract_loop (exec_all Part content) [] {} (Finite 0) of
        (participantData, maxDuration) \<Rightarrow>
          \<lparr>cd_participants = participantData,
           cd_maxDuration = (if js_positive maxDuration then Some maxDuration else None)\<rparr>)"

definition BULLET :: string where
  "BULLET = [CHR 0x20, CHR 0xE2, CHR 0x80, CHR 0xA2, CHR 0x20]"

record ViewParticipant =
  identityLower :: string
  cleanIdentityLower :: string
  label :: string

definition parseCallEvent :: "Message \<Rightarrow> MessageProcessorContext \<Rightarrow> string" where
  "parseCallEvent message context =
     (let rawType = map_option toLowerCase (exec_first Type (msg_content message));
          details = extractCallDetails (msg_content message);
          userIdLower = toLowerCase (userId context);
          userCleanLower =
            (case cleanDisplayName (Some (userId context)) of
               Some c \<Rightarrow> toLowerCase c
             | None \<Rightarrow> userIdLower);
          participants =
            map (\<lambda>participant.
                   \<lparr>identityLower = toLowerCase (cp_identity participant),
                    cleanIdentityLower =
                      (case cleanDisplayName (Some (cp_identity participant)) of
                         Some c \<Rightarrow> toLowerCase c
                       | None \<Rightarrow> toLowerCase (cp_identity participant)),
                    label = cp_name participant\<rparr>)
              (cd_participants details);
          otherParticipant =
            (if swapRoles context then
               find (\<lambda>participant.
                       identityLower participant \<noteq> userIdLower
                       \<and> cleanIdentityLower participant \<noteq> userCleanLower)
                 participants
             else None);
          viewerIdentityLower =
            (case otherParticipant of Some p \<Rightarrow> identityLower p | None \<Rightarrow> userIdLower);
          viewerCleanLower =
            (case otherParticipant of Some p \<Rightarrow> cleanIdentityLower p | None \<Rightarrow> userCleanLower);
          participantLabels =
            map (\<lambda>participant.
                   if identityLower participant = viewerIdentityLower
                      \<or> cleanIdentityLower participant = viewerCleanLower
                   then ''You''
                   else label participant)
              participants;
          participantsText = join '', '' participantLabels;
          durationText = map_option formatCallDuration (cd_maxDuration details)
      in case rawType of
           None \<Rightarrow>
             (if participantsText \<noteq> [] then ''Call event'' @ BULLET @ participantsText
              else ''Call event'')
         | Some t \<Rightarrow>
             if t = ''started'' then
               (if participantsText \<noteq> [] then ''Call started'' @ BULLET @ participantsText
                else ''Call started'')
             else if t = ''missed'' then
               (if participantsText \<noteq> [] then ''Missed call'' @ BULLET @ participantsText
                else ''Missed call'')
             else if t = ''ended'' then
               (case durationText of
                  Some d \<Rightarrow>
                    (if participantsText \<noteq> []
                     then ''Call ended'' @ BULLET @ d @ BULLET @ participantsText
                     else ''Call ended'' @ BULLET @ d)
                | None \<Rightarrow>
                    (if participantsText \<noteq> [] then ''Call ended'' @ BULLET @ participantsText
                     else ''Call ended''))
             else
               (if participantsText \<noteq> [] then ''Call '' @ t @ BULLET @ participantsText
                else ''Call '' @ t))"

subsection \<open>Notices and pop cards\<close>

text \<open>
  \<open>data[0]?.attachments?.[0]?.content\<close> for a parsed value that is not \<open>null\<close>.
\<close>

definition notice_attachment :: "json \<Rightarrow> json option" where
  "notice_attachment data =
     opt_chain (opt_chain (opt_chain (js_index0 data) (js_prop ''attachments'')) js_index0)
       (js_prop ''content'')"

text \<open>
  \<open>parseNotice\<close>. The \<open>catch\<close> takes the SyntaxError of \<open>JSON.parse\<close> and the TypeError of
  \<open>data[0]\<close> on \<open>null\<close>.
\<close>

definition parseNotice :: "Message \<Rightarrow> string" where
  "parseNotice message =
     (case JSON_parse (msg_content message) of
        None \<Rightarrow> ''System Notice''
      | Some JNull \<Rightarrow> ''System Notice''
      | Some data \<Rightarrow>
          let attachment = notice_attachment data in
          or_else (as_string (opt_chain attachment (js_prop ''title'')))
            (or_else (as_string (opt_chain attachment (js_prop ''text''))) ''System Notice''))"

definition parsePopCard :: "Message \<Rightarrow> string" where
  "parsePopCard message =
     (case JSON_parse (msg_content message) of
        None \<Rightarrow> ''System Message''
      | Some JNull \<Rightarrow> ''System Message''
      | Some data \<Rightarrow>
          let content = opt_chain (js_index0 data) (js_prop ''content'') in
          if \<not> truthy content then ''System Message''
          else
            let title = as_string (opt_chain content (js_prop ''title''));
                text = as_string (opt_chain content (js_prop ''text''))
            in if or_else title [] \<noteq> [] \<and> or_else text [] \<noteq> []
               then or_else title [] @ '': '' @ or_else text []
               else or_else title (or_else text ''System Message''))"

subsection \<open>Dispatch on the message type\<close>

definition processMessage ::
  "Externals \<Rightarrow> Message \<Rightarrow> Message option \<Rightarrow> MessageProcessorContext
     \<Rightarrow> ProcessedMessage option \<times> MessageProcessorContext" where
  "processMessage ext message nextMessage context =
     (if msg_id message \<in> skipIds context then (None, context)
      else if messagetype message = ''RichText/Media_Album'' then (None, context)
      else if messagetype message = ''Translation'' then
        handleTranslation ext message nextMessage context
      else if messagetype message = ''RichText/UriObject''
              \<or> messagetype message = ''RichText/Media_Video'' then
        (Some (handleMediaMessage ext message context), context)
      else if messagetype message = ''RichText/Media_GenericFile'' then
        (Some (createBaseMessage message context (parseGenericFile (msg_content message)) Text),
         context)
      else if messagetype message = ''RichText'' then
        (Some (createBaseMessage message context
                 (parseMessageContent ext (msg_content message)) Text),
         context)
      else if starts_with ''ThreadActivity'' (messagetype message) then
        (case parseThreadActivity message of
           Some systemContent \<Rightarrow>
             if systemContent \<noteq> []
             then (Some (handleSystemMessage message context systemContent System), context)
             else (None, context)
         | None \<Rightarrow> (None, context))
      else if starts_with ''Event/Call'' (messagetype message) then
        (Some (createBaseMessage message context (parseCallEvent message context) Call), context)
      else if messagetype message = ''Notice'' then
        (Some (handleSystemMessage message context (parseNotice message) Notice), context)
      else if messagetype message = ''PopCard'' then
        (Some (handleSystemMessage message context (parsePopCard message) Notice), context)
      else if starts_with ''InviteFreeRelationshipChanged'' (messagetype message) then
        (Some (handleSystemMessage message context
                 (parseMessageContent ext (msg_content message)) System),
         context)
      else if messagetype message = ''Text'' then
        (Some (createBaseMessage message context (msg_content message) Text), context)
      else
        (Some (createBaseMessage message context
                 (parseMessageContent ext (msg_content message)) Text),
         context))"

subsection \<open>The pass over a conversation\<close>

text \<open>
  The \<open>for\<close> loop of \<open>processMessages\<close>: the first argument is the number of indices still
  to visit (\<open>endIndex - i\<close>), the list is \<open>messages\<close> from index \<open>i\<close>, so that its second
  element is \<open>messages[i + 1]\<close>, and the result is what is pushed to \<open>processedMessages\<close> from
  there on.
\<close>

fun process_loop ::
  "Externals \<Rightarrow> nat \<Rightarrow> MessageProcessorContext \<Rightarrow> Message list \<Rightarrow> ProcessedMessage list" where
  "process_loop ext 0 context messages = []"
| "process_loop ext (Suc n) context [] = []"
| "process_loop ext (Suc n) context (message # rest) =
     (if msg_id message \<in> skipIds context then process_loop ext n context rest
      else
        case processMessage ext message (case rest of [] \<Rightarrow> None | x # _ \<Rightarrow> Some x) context of
          (processed, context') \<Rightarrow>
            (case processed of None \<Rightarrow> [] | Some p \<Rightarrow> [p]) @ process_loop ext n context' rest)"

text \<open>
  \<open>processMessages\<close>. \<open>maxMessages\<close> is an optional integer; \<open>undefined\<close> and 0 both mean
  the whole list.
\<close>

definition processMessages ::
  "Externals \<Rightarrow> Message list \<Rightarrow> string \<Rightarrow> bool \<Rightarrow> string list option \<Rightarrow> int option
     \<Rightarrow> ProcessedMessage list" where
  "processMessages ext messages uid swap media maxMessages =
     (let context = \<lparr>userId = uid, swapRoles = swap, mediaFiles = media, skipIds = {}\<rparr>;
          endIndex =
            (case maxMessages of
               None \<Rightarrow> int (length messages)
             | Some k \<Rightarrow> if k = 0 then int (length messages) else min k (int (length messages)))
      in process_loop ext (nat endIndex) context messages)"

section \<open>Search (utils/messageSearch.ts)\<close>

text \<open>
  The browser's DOM, when there is one: \<open>textContent\<close> and \<open>innerText\<close> of a detached
  \<open>div\<close> whose \<open>innerHTML\<close> is the given string. \<open>None\<close> is an environment without
  \<open>document\<close>.
\<close>

record DomText =
  textContent :: "string \<Rightarrow> string"
  innerText :: "string \<Rightarrow> string"

text \<open>\<open>html.replace(/<[^>]*>/g, "")\<close>: drop every span from a \<open><\<close> to the next \<open>>\<close>.\<close>

fun strip_tags :: "string \<Rightarrow> string" where
  "strip_tags [] = []"
| "strip_tags (c # cs) =
     (if c = CHR ''<'' \<and> dropWhile (\<lambda>x. x \<noteq> CHR ''>'') cs \<noteq> []
      then strip_tags (drop (Suc (length (takeWhile (\<lambda>x. x \<noteq> CHR ''>'') cs))) cs)
      else c # strip_tags cs)"

definition stripHtmlForSearch :: "DomText option \<Rightarrow> string \<Rightarrow> string" where
  "stripHtmlForSearch document html =
     (if html = [] then []
      else case document of
        None \<Rightarrow> strip_tags html
      | Some tempDiv \<Rightarrow>
          (if textContent tempDiv html \<noteq> [] then textContent tempDiv html
           else if innerText tempDiv html \<noteq> [] then innerText tempDiv html
           else []))"

definition messageMatchesSearch :: "DomText option \<Rightarrow> ProcessedMessage \<Rightarrow> string \<Rightarrow> bool" where
  "messageMatchesSearch document message query =
     (if trim query = [] then True
      else
        let searchQuery = trim (toLowerCase query);
            contentText = toLowerCase (stripHtmlForSearch document (pm_content message));
            displayNameText =
              toLowerCase (case pm_displayName message of None \<Rightarrow> [] | Some n \<Rightarrow> n)
        in js_includes contentText searchQuery \<or> js_includes displayNameText searchQuery)"

definition filterMessages ::
  "DomText option \<Rightarrow> ProcessedMessage list \<Rightarrow> string \<Rightarrow> ProcessedMessage list" where
  "filterMessages document messages query =
     (if trim query = [] then messages
      else filter (\<lambda>message. messageMatchesSearch document message query) messages)"

definition findMatchingMessageIndices ::
  "DomText option \<Rightarrow> ProcessedMessage list \<Rightarrow> string \<Rightarrow> nat list" where
  "findMatchingMessageIndices document messages query =
     (if trim query = [] then []
      else filter (\<lambda>i. messageMatchesSearch document (messages ! i) query)
             [0 ..< length messages])"

subsection \<open>Highlighting\<close>

definition MARK_OPEN :: string where
  \<open>MARK_OPEN = ''<mark style="background-color: rgba(255, 255, 0, 0.4); padding: 2px 0;">''\<close>

definition MARK_CLOSE :: string where
  "MARK_CLOSE = ''</mark>''"

text \<open>
  The regular expression is the trimmed query with every metacharacter escaped, under the
  flags \<open>gi\<close>: it matches the query literally, letter case ignored. A text is cut by it into
  runs, from left to right: where the query matches, a matched run of the query's length,
  after which the search goes on behind the match; elsewhere the single character.
\<close>

datatype run = Unmatched string | Matched string

fun run_text :: "run \<Rightarrow> string" where
  "run_text (Unmatched t) = t"
| "run_text (Matched t) = t"

fun is_Matched :: "run \<Rightarrow> bool" where
  "is_Matched (Matched t) = True"
| "is_Matched (Unmatched t) = False"

definition matches_at :: "string \<Rightarrow> string \<Rightarrow> bool" where
  "matches_at searchQuery s =
     (searchQuery \<noteq> []
      \<and> toLowerCase (take (length searchQuery) s) = toLowerCase searchQuery)"

fun regex_runs :: "string \<Rightarrow> string \<Rightarrow> run list" where
  "regex_runs searchQuery [] = []"
| "regex_runs searchQuery (c # cs) =
     (if matches_at searchQuery (c # cs)
      then Matched (take (length searchQuery) (c # cs))
             # regex_runs searchQuery (drop (length searchQuery - 1) cs)
      else Unmatched [c] # regex_runs searchQuery cs)"

text \<open>The replacement \<open><mark ...>$1</mark>\<close> of every match.\<close>

fun mark_run :: "run \<Rightarrow> string" where
  "mark_run (Unmatched t) = t"
| "mark_run (Matched t) = MARK_OPEN @ t @ MARK_CLOSE"

definition replace_with_mark :: "string \<Rightarrow> string \<Rightarrow> string" where
  "replace_with_mark searchQuery text = concat (map mark_run (regex_runs searchQuery text))"

text \<open>\<open>/<[^>]+>/.test(html)\<close>: somewhere a \<open><\<close>, at least one character other than \<open>>\<close>, and a \<open>>\<close>.\<close>

fun tag_at :: "string \<Rightarrow> bool" where
  "tag_at [] = False"
| "tag_at (c # cs) =
     (c = CHR ''<'' \<and> takeWhile (\<lambda>x. x \<noteq> CHR ''>'') cs \<noteq> []
        \<and> dropWhile (\<lambda>x. x \<noteq> CHR ''>'') cs \<noteq> [])"

fun has_tag :: "string \<Rightarrow> bool" where
  "has_tag [] = False"
| "has_tag (c # cs) = (tag_at (c # cs) \<or> has_tag cs)"

text \<open>
  The scanning loop of \<open>highlightSearchMatch\<close>. \<open>cur\<close> is \<open>html.substring(lastIndex, i)\<close>, the
  characters read since \<open>lastIndex\<close>, so that \<open>lastIndex < i\<close> is \<open>cur \<noteq> []\<close>; the last
  argument is the rest of \<open>html\<close> from index \<open>i\<close>. The result is the array \<open>parts\<close>.
\<close>

fun scan :: "string \<Rightarrow> string \<Rightarrow> bool \<Rightarrow> string \<Rightarrow> string list" where
  "scan searchQuery cur inTag [] =
     (if cur \<noteq> [] then [replace_with_mark searchQuery cur] else [])"
| "scan searchQuery cur inTag (c # cs) =
     (if c = CHR ''<'' then
        (if cur \<noteq> [] then [replace_with_mark searchQuery cur] else [])
          @ scan searchQuery [c] True cs
      else if c = CHR ''>'' \<and> inTag then
        (cur @ [c]) # scan searchQuery [] False cs
      else scan searchQuery (cur @ [c]) inTag cs)"

definition highlightSearchMatch :: "string \<Rightarrow> string \<Rightarrow> string" where
  "highlightSearchMatch html query =
     (if trim query = [] \<or> html = [] then html
      else if \<not> has_tag html then replace_with_mark (trim query) html
      else concat (scan (trim query) [] False html))"

section \<open>Auxiliary facts about lists and strings\<close>

lemma takeWhile_until: "c \<notin> set xs \<Longrightarrow> takeWhile (\<lambda>x. x \<noteq> c) (xs @ c # ys) = xs"
  by (induction xs) auto

lemma dropWhile_until: "c \<notin> set xs \<Longrightarrow> dropWhile (\<lambda>x. x \<noteq> c) (xs @ c # ys) = c # ys"
  by (induction xs) auto

lemma starts_with_Nil2: "starts_with w [] = (w = [])"
  by (cases w) auto

lemma stripLeading_Nil: "stripLeading ws [] = []"
  by (subst stripLeading.simps) (auto split: option.splits simp: find_Some_iff starts_with_Nil2)

section \<open>Auxiliary facts about matching\<close>

lemma exec_all_map:
  "exec_all (\<lambda>s. map_option (\<lambda>(x, r). (f x, r)) (m s)) s = map f (exec_all m s)"
proof (induction m s rule: exec_all.induct)
  case (1 m)
  show ?case by simp
next
  case (2 m c cs)
  show ?case
  proof (cases "m (c # cs)")
    case None
    with 2 show ?thesis by simp
  next
    case (Some a)
    obtain x rest where a: "a = (x, rest)" by (cases a)
    with Some 2 show ?thesis by simp
  qed
qed

lemma exec_all_step:
  assumes "m (c # cs) = Some (x, rest)" and "c # cs = pre @ rest" and "pre \<noteq> []"
  shows "exec_all m (c # cs) = x # exec_all m rest"
proof -
  from assms(2,3) obtain pre' where "pre = c # pre'" "cs = pre' @ rest"
    by (cases pre) auto
  then have "drop (length cs - length rest) cs = rest" by simp
  with assms(1) show ?thesis by simp
qed

lemma exec_all_mem:
  "x \<in> set (exec_all m s) \<Longrightarrow> \<exists>s' r. m s' = Some (x, r)"
proof (induction m s rule: exec_all.induct)
  case (1 m)
  then show ?case by simp
next
  case (2 m c cs)
  show ?case
  proof (cases "m (c # cs)")
    case None
    with 2 show ?thesis by simp
  next
    case (Some a)
    obtain y rest where a: "a = (y, rest)" by (cases a)
    with Some 2 show ?thesis by (cases "x = y") auto
  qed
qed

lemma element_text_value:
  "element_text ci tag s = Some (v, rest) \<Longrightarrow> v \<noteq> [] \<and> CHR ''<'' \<notin> set v"
  by (auto simp: element_text_def Let_def split: option.splits if_splits
      dest: set_takeWhileD)

lemma starts_with_append: "starts_with p (p @ s)"
  by (induction p) auto

lemma lit_append: "lit p (p @ s) = Some s"
  by (simp add: lit_def starts_with_append)

section \<open>Sample inputs\<close>

text \<open>Externals that change nothing, a context for the viewer \<open>8:me\<close>, and a message.\<close>

definition ext0 :: Externals where
  "ext0 = \<lparr>parseSkypeEmoji = (\<lambda>s. s), replacePattern = (\<lambda>p s. s), sanitize = (\<lambda>s. s)\<rparr>"

definition ctx0 :: MessageProcessorContext where
  "ctx0 = \<lparr>userId = ''8:me'', swapRoles = False, mediaFiles = None, skipIds = {}\<rparr>"

definition sample_msg :: "string \<Rightarrow> string \<Rightarrow> string \<Rightarrow> string \<Rightarrow> Message" where
  "sample_msg i sender type c =
     \<lparr>msg_id = i, msg_displayName = Some sender,
      originalarrivaltime = ''2020-01-01T00:00:00Z'', messagetype = type, version = 1,
      msg_content = c, conversationid = ''19:conversation'', msg_from = sender,
      properties = None, amsreferences = None\<rparr>"

section \<open>Notices\<close>

definition ALERT_NOTICE :: string where
  \<open>ALERT_NOTICE = ''[{"attachments":[{"content":{"title":"Alert","text":"Storage low"}}]}]''\<close>

lemma notice_attachment_obj:
  assumes "map_of (rev ekvs) ''attachments'' = Some (JArr (JObj akvs # as))"
    and "map_of (rev akvs) ''content'' = Some c"
  shows "notice_attachment (JArr (JObj ekvs # es)) = Some c"
  using assms by (simp add: notice_attachment_def opt_chain_def js_index0_def js_prop_def)

lemma parse_alert:
  "JSON_parse ALERT_NOTICE
     = Some (JArr [JObj [(''attachments'',
         JArr [JObj [(''content'',
           JObj [(''title'', JStr ''Alert''), (''text'', JStr ''Storage low'')])]])]])"
  unfolding ALERT_NOTICE_def by code_simp

text \<open>
  C1, as the code has it. For a Notice whose content is a JSON array whose first element
  has an \<open>attachments\<close> array whose first element has a \<open>content\<close> object: when that object
  has a non-empty \<open>title\<close>, the notice text is the title alone, whether or not there is a
  \<open>text\<close>; when it has no \<open>title\<close> and a non-empty \<open>text\<close>, it is the text; when it has
  neither, it is \<open>System Notice\<close>.
\<close>

theorem notice_title_first:
  assumes "JSON_parse (msg_content message) = Some (JArr (JObj ekvs # es))"
    and "map_of (rev ekvs) ''attachments'' = Some (JArr (JObj akvs # as))"
    and "map_of (rev akvs) ''content'' = Some (JObj ckvs)"
  shows "(\<forall>t. map_of (rev ckvs) ''title'' = Some (JStr t) \<and> t \<noteq> [] \<longrightarrow> parseNotice message = t)
    \<and> (\<forall>x. map_of (rev ckvs) ''title'' = None
             \<and> map_of (rev ckvs) ''text'' = Some (JStr x) \<and> x \<noteq> []
           \<longrightarrow> parseNotice message = x)
    \<and> (map_of (rev ckvs) ''title'' = None \<and> map_of (rev ckvs) ''text'' = None
           \<longrightarrow> parseNotice message = ''System Notice'')"
proof -
  have a: "notice_attachment (JArr (JObj ekvs # es)) = Some (JObj ckvs)"
    using assms(2,3) by (rule notice_attachment_obj)
  show ?thesis
    using assms(1) a
    by (simp add: parseNotice_def opt_chain_def js_prop_def as_string_def or_else_def)
qed

theorem notice_title_first_witness:
  "JSON_parse (msg_content (sample_msg ''n1'' ''28:concierge'' ''Notice'' ALERT_NOTICE)) \<noteq> None
   \<and> parseNotice (sample_msg ''n1'' ''28:concierge'' ''Notice'' ALERT_NOTICE) = ''Alert''"
proof -
  let ?m = "sample_msg ''n1'' ''28:concierge'' ''Notice'' ALERT_NOTICE"
  let ?c = "[(''title'', JStr ''Alert''), (''text'', JStr ''Storage low'')]"
  have 1: "JSON_parse (msg_content ?m)
      = Some (JArr (JObj [(''attachments'', JArr [JObj [(''content'', JObj ?c)]])] # []))"
    by (simp add: sample_msg_def parse_alert)
  have 2: "map_of (rev [(''attachments'', JArr [JObj [(''content'', JObj ?c)]])]) ''attachments''
      = Some (JArr (JObj [(''content'', JObj ?c)] # []))"
    by simp
  have 3: "map_of (rev [(''content'', JObj ?c)]) ''content'' = Some (JObj ?c)"
    by simp
  from notice_title_first [OF 1 2 3] 1 show ?thesis by simp
qed

text \<open>
  C1 as stated fails: the content \<open>[{"attachments":[{"content":{"title":"Alert",
  "text":"Storage low"}}]}]\<close> gives \<open>Alert\<close>, not \<open>Alert: Storage low\<close>.
\<close>

theorem notice_both_counterexample:
  "parseNotice (sample_msg ''n1'' ''28:concierge'' ''Notice'' ALERT_NOTICE) = ''Alert''
   \<and> parseNotice (sample_msg ''n1'' ''28:concierge'' ''Notice'' ALERT_NOTICE)
       \<noteq> ''Alert: Storage low''"
  unfolding ALERT_NOTICE_def by code_simp

lemma absent_property:
  assumes "\<forall>kvs. a = Some (JObj kvs) \<longrightarrow> map_of (rev kvs) k = None"
  shows "as_string (opt_chain a (js_prop k)) = None"
proof (cases a)
  case None
  then show ?thesis by (simp add: opt_chain_def as_string_def)
next
  case (Some v)
  with assms show ?thesis
    by (cases v) (simp_all add: opt_chain_def as_string_def js_prop_def)
qed

lemma parseNotice_fallback:
  assumes "JSON_parse (msg_content message) = None
     \<or> (\<exists>data. JSON_parse (msg_content message) = Some data
          \<and> (data = JNull
              \<or> (\<forall>kvs. notice_attachment data = Some (JObj kvs) \<longrightarrow>
                    map_of (rev kvs) ''title'' = None \<and> map_of (rev kvs) ''text'' = None)))"
  shows "parseNotice message = ''System Notice''"
proof -
  consider (unparsed) "JSON_parse (msg_content message) = None"
    | (isnull) "JSON_parse (msg_content message) = Some JNull"
    | (shape) data where "JSON_parse (msg_content message) = Some data" "data \<noteq> JNull"
        "\<forall>kvs. notice_attachment data = Some (JObj kvs) \<longrightarrow>
            map_of (rev kvs) ''title'' = None \<and> map_of (rev kvs) ''text'' = None"
    using assms by (elim disjE exE conjE) auto
  then show ?thesis
  proof cases
    case unparsed
    then show ?thesis by (simp add: parseNotice_def)
  next
    case isnull
    then show ?thesis by (simp add: parseNotice_def)
  next
    case shape
    have t: "as_string (opt_chain (notice_attachment data) (js_prop ''title'')) = None"
      by (rule absent_property) (simp add: shape(3))
    have x: "as_string (opt_chain (notice_attachment data) (js_prop ''text'')) = None"
      by (rule absent_property) (simp add: shape(3))
    have "parseNotice message
        = or_else (as_string (opt_chain (notice_attachment data) (js_prop ''title'')))
            (or_else (as_string (opt_chain (notice_attachment data) (js_prop ''text'')))
               ''System Notice'')"
      using shape(1,2) by (cases data) (simp_all add: parseNotice_def Let_def)
    then show ?thesis by (simp add: t x or_else_def)
  qed
qed

lemma processMessage_Notice:
  "messagetype message = ''Notice'' \<Longrightarrow> msg_id message \<notin> skipIds context \<Longrightarrow>
   processMessage ext message nextMessage context
     = (Some (handleSystemMessage message context (parseNotice message) Notice), context)"
  by (simp add: processMessage_def)

text \<open>
  C9. A Notice that is not skipped, whose content does not parse as JSON, or parses to
  \<open>null\<close>, or to a value in which \<open>[0].attachments[0].content\<close> is not an object with a
  \<open>title\<close> or a \<open>text\<close>: the parser returns \<open>System Notice\<close> (the model has no exception
  left: the \<open>catch\<close> is a branch), and the record is emitted, as a notice with that content.
\<close>

theorem notice_fallback:
  assumes "messagetype message = ''Notice''"
    and "msg_id message \<notin> skipIds context"
    and "JSON_parse (msg_content message) = None
     \<or> (\<exists>data. JSON_parse (msg_content message) = Some data
          \<and> (data = JNull
              \<or> (\<forall>kvs. notice_attachment data = Some (JObj kvs) \<longrightarrow>
                    map_of (rev kvs) ''title'' = None \<and> map_of (rev kvs) ''text'' = None)))"
  shows "parseNotice message = ''System Notice''
    \<and> (\<exists>p. processMessage ext message nextMessage context = (Some p, context)
          \<and> pm_id p = msg_id message \<and> pm_type p = Notice
          \<and> pm_content p = ''System Notice'')"
  using parseNotice_fallback [OF assms(3)] processMessage_Notice [OF assms(1,2)]
  by (simp add: handleSystemMessage_def createBaseMessage_def)

theorem notice_fallback_witness:
  "JSON_parse ''{not json'' = None
   \<and> parseNotice (sample_msg ''n1'' ''28:concierge'' ''Notice'' ''{not json'') = ''System Notice''
   \<and> (\<exists>p. processMessage ext0 (sample_msg ''n1'' ''28:concierge'' ''Notice'' ''{not json'') None ctx0
            = (Some p, ctx0)
          \<and> pm_id p = ''n1'' \<and> pm_type p = Notice \<and> pm_content p = ''System Notice'')"
proof -
  let ?m = "sample_msg ''n1'' ''28:concierge'' ''Notice'' ''{not json''"
  have 1: "messagetype ?m = ''Notice''" by (simp add: sample_msg_def)
  have 2: "msg_id ?m \<notin> skipIds ctx0" by (simp add: ctx0_def)
  have p: "JSON_parse ''{not json'' = None" by code_simp
  then have 3: "JSON_parse (msg_content ?m) = None
     \<or> (\<exists>data. JSON_parse (msg_content ?m) = Some data
          \<and> (data = JNull
              \<or> (\<forall>kvs. notice_attachment data = Some (JObj kvs) \<longrightarrow>
                    map_of (rev kvs) ''title'' = None \<and> map_of (rev kvs) ''text'' = None)))"
    by (simp add: sample_msg_def)
  from notice_fallback [OF 1 2 3, of ext0 None] p show ?thesis by (simp add: sample_msg_def)
qed

section \<open>System messages\<close>

lemma createBaseMessage_type [simp]: "pm_type (createBaseMessage m c content t) = t"
  by (simp add: createBaseMessage_def)

lemma handleSystemMessage_fields [simp]:
  "pm_displayName (handleSystemMessage m c content t) = None"
  "isOwner (handleSystemMessage m c content t) = False"
  "pm_type (handleSystemMessage m c content t) = t"
  by (simp_all add: handleSystemMessage_def createBaseMessage_def)

lemma handleMediaMessage_type: "pm_type (handleMediaMessage ext m c) \<noteq> System"
  by (simp add: handleMediaMessage_def Let_def)

lemma handleTranslation_type:
  "handleTranslation ext m nxt c = (Some p, c') \<Longrightarrow> pm_type p = Text"
  by (auto simp: handleTranslation_def Let_def split: if_splits option.splits)

lemma processMessage_System:
  assumes "processMessage ext message nextMessage context = (Some p, context')"
    and "pm_type p = System"
  shows "pm_displayName p = None \<and> \<not> isOwner p"
proof -
  have tr: "handleTranslation ext message nextMessage context \<noteq> (Some p, context')"
    using handleTranslation_type assms(2) by fastforce
  have md: "handleMediaMessage ext message context \<noteq> p"
    using handleMediaMessage_type assms(2) by blast
  show ?thesis
    using assms tr md
    unfolding processMessage_def
    by (auto split: if_splits option.splits)
qed

text \<open>What holds of every message that one step emits holds of every message of a pass.\<close>

lemma process_loop_all:
  assumes step: "\<And>m nxt c q c'. processMessage ext m nxt c = (Some q, c') \<Longrightarrow> Q q"
  shows "p \<in> set (process_loop ext n c ms) \<Longrightarrow> Q p"
proof (induction ms arbitrary: n c)
  case Nil
  then show ?case by (cases n) simp_all
next
  case (Cons m rest)
  show ?case
  proof (cases n)
    case 0
    with Cons.prems show ?thesis by simp
  next
    case (Suc k)
    show ?thesis
    proof (cases "msg_id m \<in> skipIds c")
      case True
      with Cons Suc show ?thesis by simp
    next
      case False
      obtain processed c' where pm:
        "processMessage ext m (case rest of [] \<Rightarrow> None | x # _ \<Rightarrow> Some x) c = (processed, c')"
        by (cases "processMessage ext m (case rest of [] \<Rightarrow> None | x # _ \<Rightarrow> Some x) c")
      from Cons.prems Suc False pm
      have "processed = Some p \<or> p \<in> set (process_loop ext k c' rest)"
        by (cases processed) auto
      then show ?thesis
      proof
        assume "processed = Some p"
        with pm show ?thesis using step by blast
      next
        assume "p \<in> set (process_loop ext k c' rest)"
        then show ?thesis by (rule Cons.IH)
      qed
    qed
  qed
qed

text \<open>
  C6. Whatever the message, the next message and the context (viewer, swapped or not,
  skipped ids), a message that one step emits with kind \<open>System\<close> has no display name and is
  not the owner's; so has every message of kind \<open>System\<close> that a pass emits.
\<close>

theorem system_messages_anonymous:
  "(\<forall>message nextMessage context p context'.
      processMessage ext message nextMessage context = (Some p, context') \<and> pm_type p = System
      \<longrightarrow> pm_displayName p = None \<and> \<not> isOwner p)
   \<and> (\<forall>p \<in> set (processMessages ext messages uid swap media maxMessages).
        pm_type p = System \<longrightarrow> pm_displayName p = None \<and> \<not> isOwner p)"
proof (rule conjI)
  show "\<forall>message nextMessage context p context'.
      processMessage ext message nextMessage context = (Some p, context') \<and> pm_type p = System
      \<longrightarrow> pm_displayName p = None \<and> \<not> isOwner p"
  proof (intro allI impI)
    fix message nextMessage c p c'
    assume a: "processMessage ext message nextMessage c = (Some p, c') \<and> pm_type p = System"
    from a have 1: "processMessage ext message nextMessage c = (Some p, c')" by (rule conjunct1)
    from a have 2: "pm_type p = System" by (rule conjunct2)
    from 1 2 show "pm_displayName p = None \<and> \<not> isOwner p" by (rule processMessage_System)
  qed
next
  show "\<forall>p \<in> set (processMessages ext messages uid swap media maxMessages).
        pm_type p = System \<longrightarrow> pm_displayName p = None \<and> \<not> isOwner p"
  proof
    fix p
    assume p: "p \<in> set (processMessages ext messages uid swap media maxMessages)"
    then show "pm_type p = System \<longrightarrow> pm_displayName p = None \<and> \<not> isOwner p"
      unfolding processMessages_def Let_def
    proof (rule process_loop_all [rotated])
      fix m nxt c q c'
      assume "processMessage ext m nxt c = (Some q, c')"
      then show "pm_type q = System \<longrightarrow> pm_displayName q = None \<and> \<not> isOwner q"
        by (intro impI) (rule processMessage_System)
    qed
  qed
qed

definition HISTORY_UPDATE :: Message where
  "HISTORY_UPDATE =
     sample_msg ''s1'' ''8:me'' ''ThreadActivity/HistoryDisclosedUpdate''
       ''<historydisclosedupdate><value>true</value></historydisclosedupdate>''"

lemma history_update_pass:
  "processMessages ext0 [HISTORY_UPDATE] ''8:me'' False None None
     = [\<lparr>pm_id = ''s1'', pm_displayName = None, timestamp = ''2020-01-01T00:00:00Z'',
         pm_content = ''Chat history is now visible'', pm_type = System, pm_from = ''8:me'',
         isOwner = False, originalMessageType = ''ThreadActivity/HistoryDisclosedUpdate'',
         mediaUrl = None\<rparr>]"
  by code_simp

theorem system_messages_anonymous_witness:
  "(\<exists>p. processMessages ext0 [HISTORY_UPDATE] ''8:me'' False None None = [p]
        \<and> pm_from p = ''8:me'' \<and> pm_type p = System
        \<and> pm_displayName p = None \<and> \<not> isOwner p)"
proof -
  let ?out = "processMessages ext0 [HISTORY_UPDATE] ''8:me'' False None None"
  obtain p where p: "?out = [p]" "pm_type p = System" "pm_from p = ''8:me''"
    using history_update_pass by simp
  then have "p \<in> set ?out" by simp
  with system_messages_anonymous [of ext0 "[HISTORY_UPDATE]" "''8:me''" False None None] p(2)
  have "pm_displayName p = None \<and> \<not> isOwner p" by blast
  with p show ?thesis by blast
qed

section \<open>Added members\<close>

definition wrap_target :: "string \<Rightarrow> string" where
  "wrap_target v = ''<target>'' @ v @ ''</target>''"

definition target_values :: "string \<Rightarrow> string list" where
  "target_values content = exec_all (element_text False ''target'') content"

definition after_last_colon :: "string \<Rightarrow> string" where
  "after_last_colon v = rev (takeWhile (\<lambda>c. c \<noteq> CHR '':'') (rev v))"

lemma element_text_wrap:
  assumes "v \<noteq> []" "CHR ''<'' \<notin> set v"
  shows "element_text False ''target'' (wrap_target v @ s) = Some (v, s)"
proof -
  have 1: "lit (''<'' @ ''target'' @ ''>'') (wrap_target v @ s) = Some (v @ ''</target>'' @ s)"
    using lit_append [of "''<target>''" "v @ ''</target>'' @ s"] by (simp add: wrap_target_def)
  have 2: "takeWhile (\<lambda>c. c \<noteq> CHR ''<'') (v @ ''</target>'' @ s) = v"
    using takeWhile_until [OF assms(2), of "''/target>'' @ s"] by simp
  have 3: "dropWhile (\<lambda>c. c \<noteq> CHR ''<'') (v @ ''</target>'' @ s) = ''</target>'' @ s"
    using dropWhile_until [OF assms(2), of "''/target>'' @ s"] by simp
  have 4: "lit (''</'' @ ''target'' @ ''>'') (''</target>'' @ s) = Some s"
    using lit_append [of "''</target>''" s] by simp
  show ?thesis
    unfolding element_text_def using assms(1) by (simp only: 1 2 3 4 if_False Let_def option.case)
qed

lemma target_values_concat:
  assumes "\<forall>v \<in> set vs. v \<noteq> [] \<and> CHR ''<'' \<notin> set v"
  shows "target_values (concat (map wrap_target vs)) = vs"
  using assms
proof (induction vs)
  case Nil
  then show ?case by (simp add: target_values_def)
next
  case (Cons v vs)
  let ?rest = "concat (map wrap_target vs)"
  have v: "v \<noteq> []" "CHR ''<'' \<notin> set v" using Cons.prems by auto
  have m: "element_text False ''target'' (wrap_target v @ ?rest) = Some (v, ?rest)"
    using v by (rule element_text_wrap)
  obtain c cs where ccs: "wrap_target v @ ?rest = c # cs"
    by (cases "wrap_target v @ ?rest") (auto simp: wrap_target_def)
  have ne: "wrap_target v \<noteq> []" by (simp add: wrap_target_def)
  have "exec_all (element_text False ''target'') (c # cs)
      = v # exec_all (element_text False ''target'') ?rest"
    using m ccs ne by (intro exec_all_step [where pre = "wrap_target v"]) simp_all
  with ccs Cons show ?case by (simp add: target_values_def)
qed

lemma remove_target_tags_tail:
  "CHR ''<'' \<notin> set v \<Longrightarrow> remove_target_tags (v @ ''</target>'') = v"
  by (induction v) auto

lemma remove_target_tags_wrap:
  "CHR ''<'' \<notin> set v \<Longrightarrow> remove_target_tags (wrap_target v) = v"
  by (simp add: wrap_target_def remove_target_tags_tail)

lemma split_char_ne: "split_char sep s \<noteq> []"
  by (induction s) (auto split: list.splits)

lemma split_char_none: "sep \<notin> set s \<Longrightarrow> split_char sep s = [s]"
  by (induction s) auto

lemma split_char_some: "sep \<in> set s \<Longrightarrow> \<exists>p q qs. split_char sep s = p # q # qs"
proof (induction s)
  case Nil
  then show ?case by simp
next
  case (Cons c cs)
  show ?case
  proof (cases "c = sep")
    case True
    then show ?thesis using split_char_ne [of sep cs] by (cases "split_char sep cs") auto
  next
    case False
    with Cons obtain p q qs where "split_char sep cs = p # q # qs" by auto
    with False show ?thesis by simp
  qed
qed

lemma last_split_char: "last (split_char sep s) = rev (takeWhile (\<lambda>c. c \<noteq> sep) (rev s))"
proof (induction s)
  case Nil
  then show ?case by simp
next
  case (Cons c cs)
  show ?case
  proof (cases "sep \<in> set cs")
    case True
    then obtain p q qs where s: "split_char sep cs = p # q # qs"
      using split_char_some by blast
    have "last (split_char sep (c # cs)) = last (split_char sep cs)"
      using s by (cases "c = sep") auto
    moreover have "takeWhile (\<lambda>c. c \<noteq> sep) (rev cs @ [c]) = takeWhile (\<lambda>c. c \<noteq> sep) (rev cs)"
      using True by (auto simp: takeWhile_append)
    ultimately show ?thesis using Cons by simp
  next
    case False
    from False have sc: "split_char sep cs = [cs]" by (rule split_char_none)
    from False have all: "\<forall>x \<in> set (rev cs). x \<noteq> sep" by auto
    show ?thesis
    proof (cases "c = sep")
      case True
      with sc all show ?thesis by (simp add: takeWhile_append)
    next
      case False
      with sc all show ?thesis by (simp add: takeWhile_append)
    qed
  qed
qed

lemma join_ne: "xs \<noteq> [] \<Longrightarrow> hd xs \<noteq> [] \<Longrightarrow> join sep xs \<noteq> []"
  by (cases xs; cases "tl xs") auto

lemma join_filter_ne:
  "(join sep (filter (\<lambda>n. n \<noteq> []) xs) = []) = (filter (\<lambda>n. n \<noteq> []) xs = [])"
proof (cases "filter (\<lambda>n. n \<noteq> []) xs")
  case Nil
  then show ?thesis by simp
next
  case (Cons y ys)
  then have "y \<in> set (filter (\<lambda>n. n \<noteq> []) xs)" by simp
  then have "y \<noteq> []" by simp
  with Cons show ?thesis using join_ne [of "y # ys" sep] by simp
qed

lemma AddMember_eq:
  "AddMember = (\<lambda>s. map_option (\<lambda>(v, rest). (wrap_target v, rest)) (element_text False ''target'' s))"
  by (rule ext) (simp add: AddMember_def wrap_target_def)

lemma member_names:
  "map (\<lambda>target. last (split_char (CHR '':'') (remove_target_tags target)))
       (exec_all AddMember content)
   = map after_last_colon (target_values content)"
proof -
  have "exec_all AddMember content = map wrap_target (target_values content)"
    unfolding AddMember_eq target_values_def by (rule exec_all_map)
  moreover have "\<forall>v \<in> set (target_values content).
      last (split_char (CHR '':'') (remove_target_tags (wrap_target v))) = after_last_colon v"
  proof
    fix v assume "v \<in> set (target_values content)"
    then obtain s' r where "element_text False ''target'' s' = Some (v, r)"
      unfolding target_values_def using exec_all_mem by fastforce
    then have "CHR ''<'' \<notin> set v" using element_text_value by blast
    then show "last (split_char (CHR '':'') (remove_target_tags (wrap_target v))) = after_last_colon v"
      by (simp add: remove_target_tags_wrap last_split_char after_last_colon_def)
  qed
  ultimately show ?thesis by (simp add: comp_def)
qed

text \<open>
  C3, as the code has it. \<open>target_values\<close> are the values of the target tags of the
  content (of the tags written one after the other, exactly the values written). For an
  AddMember record the parser takes of each value the part behind its last colon, keeps
  the non-empty ones, all of them and in their order (a name that occurs twice is listed
  twice), joins them with a comma and a space, and returns \<open>Added ... to the conversation\<close>;
  it returns \<open>null\<close> when no name is left.
\<close>

theorem add_member_text:
  assumes "messagetype message = ''ThreadActivity/AddMember''"
  shows "parseThreadActivity message
      = (let names = filter (\<lambda>n. n \<noteq> [])
                       (map after_last_colon (target_values (msg_content message)))
         in if names = [] then None
            else Some (''Added '' @ join '', '' names @ '' to the conversation''))
    \<and> (\<forall>vs. (\<forall>v \<in> set vs. v \<noteq> [] \<and> CHR ''<'' \<notin> set v)
            \<and> msg_content message = concat (map wrap_target vs)
          \<longrightarrow> target_values (msg_content message) = vs)"
proof (rule conjI)
  have e: "(exec_all AddMember (msg_content message) = [])
      = (target_values (msg_content message) = [])"
    unfolding AddMember_eq target_values_def by (simp add: exec_all_map)
  show "parseThreadActivity message
      = (let names = filter (\<lambda>n. n \<noteq> [])
                       (map after_last_colon (target_values (msg_content message)))
         in if names = [] then None
            else Some (''Added '' @ join '', '' names @ '' to the conversation''))"
    unfolding parseThreadActivity_def Let_def
    using assms by (simp only: if_True member_names join_filter_ne e) auto
next
  show "\<forall>vs. (\<forall>v \<in> set vs. v \<noteq> [] \<and> CHR ''<'' \<notin> set v)
            \<and> msg_content message = concat (map wrap_target vs)
          \<longrightarrow> target_values (msg_content message) = vs"
    using target_values_concat by auto
qed

definition TWO_TARGETS :: Message where
  "TWO_TARGETS =
     sample_msg ''a1'' ''8:me'' ''ThreadActivity/AddMember''
       (concat (map wrap_target [''8:alice'', ''8:bob'']))"

theorem add_member_text_witness:
  "msg_content TWO_TARGETS = ''<target>8:alice</target><target>8:bob</target>''
   \<and> target_values (msg_content TWO_TARGETS) = [''8:alice'', ''8:bob'']
   \<and> parseThreadActivity TWO_TARGETS = Some ''Added alice, bob to the conversation''"
proof -
  have t: "messagetype TWO_TARGETS = ''ThreadActivity/AddMember''"
    by (simp add: TWO_TARGETS_def sample_msg_def)
  have c: "msg_content TWO_TARGETS = concat (map wrap_target [''8:alice'', ''8:bob''])"
    by (simp add: TWO_TARGETS_def sample_msg_def)
  have v: "\<forall>v \<in> set [''8:alice'', ''8:bob'']. v \<noteq> [] \<and> CHR ''<'' \<notin> set v"
    by simp
  from add_member_text [OF t] c v
  have tv: "target_values (msg_content TWO_TARGETS) = [''8:alice'', ''8:bob'']"
    by blast
  from add_member_text [OF t] tv
  have "parseThreadActivity TWO_TARGETS = Some ''Added alice, bob to the conversation''"
    by (simp add: after_last_colon_def)
  with tv c show ?thesis by (simp add: wrap_target_def)
qed

text \<open>
  C3 as stated fails: the results are not made distinct. Two target tags with the same
  value \<open>8:alice\<close> give the name twice.
\<close>

theorem add_member_duplicates_counterexample:
  "parseThreadActivity
     (sample_msg ''a1'' ''8:me'' ''ThreadActivity/AddMember''
        ''<target>8:alice</target><target>8:alice</target>'')
   = Some ''Added alice, alice to the conversation''"
  by code_simp

section \<open>Call durations\<close>

text \<open>
  The durations that the participant segments of a call event carry: for every match of
  \<open>Part\<close>, in order, the number that \<open>parseFloat\<close> reads from the first duration tag of
  its body, when there is one. \<open>js_le\<close> is the order of the numbers (\<open>NaN\<close> is not
  compared).
\<close>

definition segment_durations :: "string \<Rightarrow> jsnum list" where
  "segment_durations content =
     List.map_filter (\<lambda>(identity, partBody). map_option parseFloat (exec_first Duration partBody))
       (exec_all Part content)"

fun js_le :: "jsnum \<Rightarrow> jsnum \<Rightarrow> bool" where
  "js_le NaN y = False"
| "js_le x NaN = False"
| "js_le NegInf y = True"
| "js_le x PosInf = True"
| "js_le PosInf y = False"
| "js_le x NegInf = False"
| "js_le (Finite x) (Finite y) = (x \<le> y)"

lemma extract_loop_max:
  "snd (extract_loop parts ps seen mx)
     = foldl Math_max mx
         (filter (\<lambda>d. d \<noteq> NaN)
            (List.map_filter (\<lambda>(identity, partBody). map_option parseFloat (exec_first Duration partBody))
               parts))"
proof (induction parts arbitrary: ps seen mx)
  case Nil
  then show ?case by (simp add: List.map_filter_simps)
next
  case (Cons a parts)
  obtain identity partBody where a: "a = (identity, partBody)" by (cases a)
  show ?case
    unfolding a
    by (cases "exec_first Duration partBody")
       (simp_all add: List.map_filter_simps Let_def Cons.IH)
qed

lemma Math_max_le1: "x \<noteq> NaN \<Longrightarrow> y \<noteq> NaN \<Longrightarrow> js_le x (Math_max x y)"
  by (cases x; cases y) auto

lemma Math_max_le2: "x \<noteq> NaN \<Longrightarrow> y \<noteq> NaN \<Longrightarrow> js_le y (Math_max x y)"
  by (cases x; cases y) auto

lemma Math_max_cases: "Math_max x y = x \<or> Math_max x y = y"
  by (cases x; cases y) (auto simp: max_def)

lemma Math_max_NaN: "x \<noteq> NaN \<Longrightarrow> y \<noteq> NaN \<Longrightarrow> Math_max x y \<noteq> NaN"
  by (cases x; cases y) auto

lemma js_le_trans: "js_le x y \<Longrightarrow> js_le y z \<Longrightarrow> js_le x z"
  by (cases x; cases y; cases z) auto

lemma js_le_refl: "x \<noteq> NaN \<Longrightarrow> js_le x x"
  by (cases x) auto

lemma foldl_max:
  assumes "mx \<noteq> NaN" "\<forall>d \<in> set ds. d \<noteq> NaN"
  shows "foldl Math_max mx ds \<noteq> NaN \<and> js_le mx (foldl Math_max mx ds)
    \<and> (\<forall>d \<in> set ds. js_le d (foldl Math_max mx ds))
    \<and> (foldl Math_max mx ds = mx \<or> foldl Math_max mx ds \<in> set ds)"
  using assms
proof (induction ds arbitrary: mx)
  case Nil
  then show ?case by (simp add: js_le_refl)
next
  case (Cons d ds)
  let ?m = "Math_max mx d"
  let ?r = "foldl Math_max ?m ds"
  have d: "d \<noteq> NaN" using Cons.prems by simp
  have m: "?m \<noteq> NaN" using Cons.prems(1) d by (rule Math_max_NaN)
  have ih: "?r \<noteq> NaN \<and> js_le ?m ?r \<and> (\<forall>d \<in> set ds. js_le d ?r) \<and> (?r = ?m \<or> ?r \<in> set ds)"
    using Cons.IH [OF m] Cons.prems(2) by simp
  have 1: "js_le mx ?r" using Math_max_le1 [OF Cons.prems(1) d] ih js_le_trans by blast
  have 2: "js_le d ?r" using Math_max_le2 [OF Cons.prems(1) d] ih js_le_trans by blast
  have 3: "?r = mx \<or> ?r = d \<or> ?r \<in> set ds" using ih Math_max_cases [of mx d] by auto
  show ?case using ih 1 2 3 by auto
qed

lemma js_positive_le: "js_positive d \<Longrightarrow> js_le d r \<Longrightarrow> js_positive r"
  by (cases d; cases r) auto

lemma js_le_zero: "js_le (Finite 0) r \<Longrightarrow> \<not> js_positive r \<Longrightarrow> r = Finite 0"
  by (cases r) auto

lemma maxDuration_eq:
  "cd_maxDuration (extractCallDetails content)
     = (let r = foldl Math_max (Finite 0) (filter (\<lambda>d. d \<noteq> NaN) (segment_durations content))
        in if js_positive r then Some r else None)"
proof -
  obtain ps r where e: "extract_loop (exec_all Part content) [] {} (Finite 0) = (ps, r)"
    by (cases "extract_loop (exec_all Part content) [] {} (Finite 0)")
  then have "r = foldl Math_max (Finite 0) (filter (\<lambda>d. d \<noteq> NaN) (segment_durations content))"
    using extract_loop_max [of "exec_all Part content" "[]" "{}" "Finite 0"]
    by (simp add: segment_durations_def)
  with e show ?thesis by (simp add: extractCallDetails_def)
qed

lemma maxDuration_max:
  "(let ds = filter (\<lambda>d. d \<noteq> NaN) (segment_durations content) in
      if \<exists>d \<in> set ds. js_positive d
      then \<exists>mx. cd_maxDuration (extractCallDetails content) = Some mx \<and> mx \<in> set ds
             \<and> (\<forall>d \<in> set ds. js_le d mx)
      else cd_maxDuration (extractCallDetails content) = None)"
proof -
  let ?ds = "filter (\<lambda>d. d \<noteq> NaN) (segment_durations content)"
  let ?r = "foldl Math_max (Finite 0) ?ds"
  have f: "?r \<noteq> NaN \<and> js_le (Finite 0) ?r \<and> (\<forall>d \<in> set ?ds. js_le d ?r)
      \<and> (?r = Finite 0 \<or> ?r \<in> set ?ds)"
    by (rule foldl_max) simp_all
  show ?thesis
  proof (cases "\<exists>d \<in> set ?ds. js_positive d")
    case True
    then obtain d where d: "d \<in> set ?ds" "js_positive d" by blast
    with f have pos: "js_positive ?r" using js_positive_le by blast
    then have "?r \<noteq> Finite 0" by auto
    with f have "?r \<in> set ?ds" by blast
    with pos f True show ?thesis unfolding maxDuration_eq Let_def by auto
  next
    case False
    have "\<not> js_positive ?r"
    proof
      assume p: "js_positive ?r"
      then have "?r \<noteq> Finite 0" by auto
      with f have "?r \<in> set ?ds" by blast
      with p False show False by blast
    qed
    with False show ?thesis unfolding maxDuration_eq Let_def by auto
  qed
qed



lemma ended_text:
  assumes "map_option toLowerCase (exec_first Type (msg_content message)) = Some ''ended''"
  shows "\<exists>labels.
     parseCallEvent message context
       = (case cd_maxDuration (extractCallDetails (msg_content message)) of
            Some d \<Rightarrow>
              (if join '', '' labels \<noteq> []
               then ''Call ended'' @ BULLET @ formatCallDuration d @ BULLET @ join '', '' labels
               else ''Call ended'' @ BULLET @ formatCallDuration d)
          | None \<Rightarrow>
              (if join '', '' labels \<noteq> [] then ''Call ended'' @ BULLET @ join '', '' labels
               else ''Call ended''))
     \<and> length labels = length (cd_participants (extractCallDetails (msg_content message)))
     \<and> (\<forall>i < length labels.
           labels ! i = ''You''
           \<or> labels ! i = cp_name (cd_participants (extractCallDetails (msg_content message)) ! i))"
proof -
  let ?details = "extractCallDetails (msg_content message)"
  let ?uid = "toLowerCase (userId context)"
  let ?uclean = "case cleanDisplayName (Some (userId context)) of
                   Some c \<Rightarrow> toLowerCase c | None \<Rightarrow> ?uid"
  let ?view = "\<lambda>participant.
       \<lparr>identityLower = toLowerCase (cp_identity participant),
        cleanIdentityLower =
          (case cleanDisplayName (Some (cp_identity participant)) of
             Some c \<Rightarrow> toLowerCase c
           | None \<Rightarrow> toLowerCase (cp_identity participant)),
        label = cp_name participant\<rparr>"
  let ?other = "if swapRoles context then
               find (\<lambda>participant. identityLower participant \<noteq> ?uid
                       \<and> cleanIdentityLower participant \<noteq> ?uclean)
                 (map ?view (cd_participants ?details))
             else None"
  let ?vi = "case ?other of Some p \<Rightarrow> identityLower p | None \<Rightarrow> ?uid"
  let ?vc = "case ?other of Some p \<Rightarrow> cleanIdentityLower p | None \<Rightarrow> ?uclean"
  let ?labels = "map (\<lambda>participant.
                   if identityLower participant = ?vi \<or> cleanIdentityLower participant = ?vc
                   then ''You'' else label participant)
              (map ?view (cd_participants ?details))"
  have 1: "parseCallEvent message context
       = (case cd_maxDuration ?details of
            Some d \<Rightarrow>
              (if join '', '' ?labels \<noteq> []
               then ''Call ended'' @ BULLET @ formatCallDuration d @ BULLET @ join '', '' ?labels
               else ''Call ended'' @ BULLET @ formatCallDuration d)
          | None \<Rightarrow>
              (if join '', '' ?labels \<noteq> [] then ''Call ended'' @ BULLET @ join '', '' ?labels
               else ''Call ended''))"
    unfolding parseCallEvent_def Let_def assms
    by (cases "cd_maxDuration ?details") simp_all
  have 2: "length ?labels = length (cd_participants ?details)" by simp
  have 3: "\<forall>i < length ?labels.
           ?labels ! i = ''You'' \<or> ?labels ! i = cp_name (cd_participants ?details ! i)"
    by simp
  from 1 2 3 show ?thesis by (intro exI [of _ ?labels] conjI)
qed






text \<open>
  C10. When no segment of a call event carries a positive duration (a duration of 0, a
  negative one and one that is no number are not positive), the call has no duration, and
  the text of an ended call is \<open>Call ended\<close> alone or \<open>Call ended\<close>, the bullet and the
  labels of the participants, each label being \<open>You\<close> or the name of a participant: it has
  no duration in it.
\<close>

theorem no_positive_duration:
  assumes "\<forall>d \<in> set (segment_durations content). \<not> js_positive d"
  shows "cd_maxDuration (extractCallDetails content) = None
    \<and> (\<forall>message context.
          msg_content message = content
          \<and> map_option toLowerCase (exec_first Type content) = Some ''ended''
          \<longrightarrow> (\<exists>labels.
                 length labels = length (cd_participants (extractCallDetails content))
                 \<and> (\<forall>i < length labels.
                       labels ! i = ''You''
                       \<or> labels ! i = cp_name (cd_participants (extractCallDetails content) ! i))
                 \<and> parseCallEvent message context
                     = (if join '', '' labels = [] then ''Call ended''
                        else ''Call ended'' @ BULLET @ join '', '' labels)))"
proof (intro conjI allI impI)
  have "\<not> (\<exists>d \<in> set (filter (\<lambda>d. d \<noteq> NaN) (segment_durations content)). js_positive d)"
    using assms by auto
  with maxDuration_max [of content]
  show none: "cd_maxDuration (extractCallDetails content) = None"
    unfolding Let_def by (simp only: if_False)
  fix message :: Message and c :: MessageProcessorContext
  assume a: "msg_content message = content
          \<and> map_option toLowerCase (exec_first Type content) = Some ''ended''"
  then have t: "map_option toLowerCase (exec_first Type (msg_content message)) = Some ''ended''"
    by simp
  from ended_text [OF t, of c] a none
  show "\<exists>labels.
          length labels = length (cd_participants (extractCallDetails content))
          \<and> (\<forall>i < length labels.
                labels ! i = ''You''
                \<or> labels ! i = cp_name (cd_participants (extractCallDetails content) ! i))
          \<and> parseCallEvent message c
              = (if join '', '' labels = [] then ''Call ended''
                 else ''Call ended'' @ BULLET @ join '', '' labels)"
    by auto
qed

definition ZERO_DURATION :: string where
  \<open>ZERO_DURATION = ''<partlist type="ended"><part identity="8:bob"><name>Bob</name><duration>0</duration></part></partlist>''\<close>

lemma zero_duration_segments: "segment_durations ZERO_DURATION = [Finite 0]"
  unfolding ZERO_DURATION_def by code_simp

lemma zero_duration_type:
  "map_option toLowerCase (exec_first Type ZERO_DURATION) = Some ''ended''"
  unfolding ZERO_DURATION_def by code_simp

lemma zero_duration_participants:
  "cd_participants (extractCallDetails ZERO_DURATION)
     = [\<lparr>cp_identity = ''8:bob'', cp_name = ''Bob''\<rparr>]"
  unfolding ZERO_DURATION_def by code_simp

theorem no_positive_duration_witness:
  "segment_durations ZERO_DURATION = [Finite 0]
   \<and> cd_maxDuration (extractCallDetails ZERO_DURATION) = None
   \<and> (parseCallEvent (sample_msg ''c2'' ''8:me'' ''Event/Call'' ZERO_DURATION) ctx0
          = ''Call ended'' @ BULLET @ ''You''
        \<or> parseCallEvent (sample_msg ''c2'' ''8:me'' ''Event/Call'' ZERO_DURATION) ctx0
          = ''Call ended'' @ BULLET @ ''Bob'')"
proof -
  have h: "\<forall>d \<in> set (segment_durations ZERO_DURATION). \<not> js_positive d"
    by (simp add: zero_duration_segments)
  note t = no_positive_duration [OF h]
  have c: "msg_content (sample_msg ''c2'' ''8:me'' ''Event/Call'' ZERO_DURATION) = ZERO_DURATION"
    by (simp add: sample_msg_def)
  from t c zero_duration_type obtain labels where l:
    "length labels = length (cd_participants (extractCallDetails ZERO_DURATION))"
    "\<forall>i < length labels. labels ! i = ''You''
        \<or> labels ! i = cp_name (cd_participants (extractCallDetails ZERO_DURATION) ! i)"
    "parseCallEvent (sample_msg ''c2'' ''8:me'' ''Event/Call'' ZERO_DURATION) ctx0
       = (if join '', '' labels = [] then ''Call ended''
          else ''Call ended'' @ BULLET @ join '', '' labels)"
    by blast
  from l(1) obtain x where x: "labels = [x]"
    by (cases labels) (auto simp: zero_duration_participants)
  with l(2) have "x = ''You'' \<or> x = ''Bob''"
    by (simp add: zero_duration_participants)
  with l(3) x t show ?thesis by (auto simp: zero_duration_segments)
qed

section \<open>The pass\<close>

text \<open>\<open>messages[i + 1]\<close>, \<open>undefined\<close> behind the end.\<close>

definition next_of :: "Message list \<Rightarrow> nat \<Rightarrow> Message option" where
  "next_of ms i = (if Suc i < length ms then Some (ms ! Suc i) else None)"

lemma next_of_0: "next_of (m # rest) 0 = (case rest of [] \<Rightarrow> None | x # _ \<Rightarrow> Some x)"
  by (cases rest) (simp_all add: next_of_def)

lemma next_of_Suc: "next_of (m # rest) (Suc i) = next_of rest i"
  by (simp add: next_of_def)

lemma process_loop_length:
  "length (process_loop ext n c ms) \<le> n \<and> length (process_loop ext n c ms) \<le> length ms"
proof (induction ms arbitrary: n c)
  case Nil
  then show ?case by (cases n) simp_all
next
  case (Cons m rest)
  show ?case
  proof (cases n)
    case 0
    then show ?thesis by simp
  next
    case (Suc k)
    show ?thesis
    proof (cases "msg_id m \<in> skipIds c")
      case True
      with Suc Cons.IH [of k c] show ?thesis by simp
    next
      case False
      obtain processed c' where pm:
        "processMessage ext m (case rest of [] \<Rightarrow> None | x # _ \<Rightarrow> Some x) c = (processed, c')"
        by (cases "processMessage ext m (case rest of [] \<Rightarrow> None | x # _ \<Rightarrow> Some x) c")
      with Suc False Cons.IH [of k c'] show ?thesis by (cases processed) simp_all
    qed
  qed
qed

lemma process_loop_order:
  "\<exists>is. sorted_wrt (<) is \<and> (\<forall>i \<in> set is. i < length ms \<and> i < n)
     \<and> list_all2 (\<lambda>i p. \<exists>c c'. processMessage ext (ms ! i) (next_of ms i) c = (Some p, c'))
          is (process_loop ext n ctx ms)"
proof (induction ms arbitrary: n ctx)
  case Nil
  show ?case by (cases n) simp_all
next
  case (Cons m rest)
  let ?P = "\<lambda>ms i p. \<exists>c c'. processMessage ext (ms ! i) (next_of ms i) c = (Some p, c')"
  show ?case
  proof (cases n)
    case 0
    then show ?thesis by simp
  next
    case (Suc k)
    have shift: "\<And>c is. sorted_wrt (<) is \<Longrightarrow> (\<forall>i \<in> set is. i < length rest \<and> i < k) \<Longrightarrow>
        list_all2 (?P rest) is (process_loop ext k c rest) \<Longrightarrow>
        sorted_wrt (<) (map Suc is) \<and> (\<forall>i \<in> set (map Suc is). i < length (m # rest) \<and> i < n)
        \<and> (\<forall>i \<in> set (map Suc is). 0 < i)
        \<and> list_all2 (?P (m # rest)) (map Suc is) (process_loop ext k c rest)"
      using Suc by (auto simp: sorted_wrt_map list_all2_map1 next_of_Suc)
    show ?thesis
    proof (cases "msg_id m \<in> skipIds ctx")
      case True
      from Cons.IH [of k ctx] obtain "is" where
        "sorted_wrt (<) is" "\<forall>i \<in> set is. i < length rest \<and> i < k"
        "list_all2 (?P rest) is (process_loop ext k ctx rest)"
        by blast
      from shift [OF this] True Suc show ?thesis
        by (intro exI [of _ "map Suc is"]) simp
    next
      case False
      obtain processed c' where pm:
        "processMessage ext m (case rest of [] \<Rightarrow> None | x # _ \<Rightarrow> Some x) ctx = (processed, c')"
        by (cases "processMessage ext m (case rest of [] \<Rightarrow> None | x # _ \<Rightarrow> Some x) ctx")
      from Cons.IH [of k c'] obtain "is" where
        "sorted_wrt (<) is" "\<forall>i \<in> set is. i < length rest \<and> i < k"
        "list_all2 (?P rest) is (process_loop ext k c' rest)"
        by blast
      note s = shift [OF this]
      show ?thesis
      proof (cases processed)
        case None
        with s pm False Suc show ?thesis
          by (intro exI [of _ "map Suc is"]) simp
      next
        case (Some p)
        with pm have "?P (m # rest) 0 p"
          by (auto simp: next_of_0)
        with s pm False Suc Some show ?thesis
          by (intro exI [of _ "0 # map Suc is"]) simp
      qed
    qed
  qed
qed

text \<open>
  C4. A pass emits at most as many messages as it is given records, and the emitted
  messages can be assigned, one by one and in their order, to strictly increasing indices
  of the input: each is what \<open>processMessage\<close> emits for the record at its index (with the
  record behind it as the next one, and the skipped ids of that moment). So no record
  gives two messages and the order of the records is kept.
\<close>

theorem pass_order:
  "length (processMessages ext messages uid swap media maxMessages) \<le> length messages
   \<and> (\<exists>is. sorted_wrt (<) is \<and> (\<forall>i \<in> set is. i < length messages)
         \<and> list_all2
              (\<lambda>i p. \<exists>c c'. processMessage ext (messages ! i) (next_of messages i) c = (Some p, c'))
              is (processMessages ext messages uid swap media maxMessages))"
proof (rule conjI)
  show "length (processMessages ext messages uid swap media maxMessages) \<le> length messages"
    unfolding processMessages_def Let_def
    using process_loop_length by blast
next
  show "\<exists>is. sorted_wrt (<) is \<and> (\<forall>i \<in> set is. i < length messages)
         \<and> list_all2
              (\<lambda>i p. \<exists>c c'. processMessage ext (messages ! i) (next_of messages i) c = (Some p, c'))
              is (processMessages ext messages uid swap media maxMessages)"
    unfolding processMessages_def Let_def
    using process_loop_order by blast
qed

definition SHORT_PASS :: "Message list" where
  "SHORT_PASS =
     [sample_msg ''1'' ''8:me'' ''Translation'' ''{}'',
      sample_msg ''2'' ''8:me'' ''RichText'' ''hello'',
      sample_msg ''3'' ''8:bob'' ''RichText'' ''bye'']"

lemma short_pass_length:
  "length (processMessages ext0 SHORT_PASS ''8:me'' False None None) = 2"
  unfolding SHORT_PASS_def by code_simp

theorem pass_order_witness:
  "length (processMessages ext0 SHORT_PASS ''8:me'' False None None) = 2
   \<and> length SHORT_PASS = 3
   \<and> (\<exists>is. sorted_wrt (<) is \<and> (\<forall>i \<in> set is. i < 3) \<and> length is = 2
         \<and> list_all2
              (\<lambda>i p. \<exists>c c'. processMessage ext0 (SHORT_PASS ! i) (next_of SHORT_PASS i) c
                          = (Some p, c'))
              is (processMessages ext0 SHORT_PASS ''8:me'' False None None))"
proof -
  have l: "length SHORT_PASS = 3" by (simp add: SHORT_PASS_def)
  from pass_order [of ext0 SHORT_PASS "''8:me''" False None None] obtain "is" where i:
    "sorted_wrt (<) is" "\<forall>i \<in> set is. i < length SHORT_PASS"
    "list_all2
       (\<lambda>i p. \<exists>c c'. processMessage ext0 (SHORT_PASS ! i) (next_of SHORT_PASS i) c
                   = (Some p, c'))
       is (processMessages ext0 SHORT_PASS ''8:me'' False None None)"
    by blast
  from i(3) have "length is = 2"
    using short_pass_length by (simp add: list_all2_lengthD)
  with i l short_pass_length show ?thesis by auto
qed

section \<open>Translation pairs\<close>





lemma pm_id_simps [simp]:
  "pm_id (createBaseMessage m c content t) = msg_id m"
  "pm_id (handleSystemMessage m c content t) = msg_id m"
  "pm_id (handleMediaMessage ext m c) = msg_id m"
  by (simp_all add: createBaseMessage_def handleSystemMessage_def handleMediaMessage_def Let_def)









section \<open>Search with an empty query\<close>

text \<open>
  A string is whitespace-only when it is a sequence of characters that \<open>trim\<close> removes;
  the empty string is one.
\<close>

inductive whitespace_only :: "string \<Rightarrow> bool" where
  ws_empty: "whitespace_only []"
| ws_more: "w \<in> set js_whitespace \<Longrightarrow> whitespace_only s \<Longrightarrow> whitespace_only (w @ s)"

lemma find_ws:
  "w \<in> set js_whitespace \<Longrightarrow>
   find (\<lambda>w'. w' \<noteq> [] \<and> starts_with w' (w @ s)) js_whitespace = Some w"
  unfolding js_whitespace_def
  apply (simp only: set_simps insert_iff empty_iff)
  apply (elim disjE)
  apply simp_all
  done

lemma stripLeading_ws:
  "w \<in> set js_whitespace \<Longrightarrow>
   stripLeading js_whitespace (w @ s) = stripLeading js_whitespace s"
  by (subst stripLeading.simps) (simp add: find_ws)

lemma trim_whitespace_only: "whitespace_only q \<Longrightarrow> trim q = []"
  by (induction rule: whitespace_only.induct)
     (auto simp: trim_def trimStart_def trimEnd_def stripLeading_ws stripLeading_Nil)

definition msg0 :: ProcessedMessage where
  "msg0 = \<lparr>pm_id = ''1'', pm_displayName = Some ''alice'',
     timestamp = ''2020-01-01T00:00:00Z'', pm_content = ''hello'', pm_type = Text,
     pm_from = ''8:alice'', isOwner = False, originalMessageType = ''RichText'',
     mediaUrl = None\<rparr>"

text \<open>
  C5, as the code has it. For an empty or whitespace-only query every message matches and
  \<open>filterMessages\<close> returns its input list unchanged; \<open>findMatchingMessageIndices\<close> has a
  guard of its own for such a query and returns no index at all.
\<close>

theorem blank_query_search:
  "whitespace_only query \<Longrightarrow>
   filterMessages document messages query = messages
   \<and> (\<forall>m. messageMatchesSearch document m query)
   \<and> findMatchingMessageIndices document messages query = []"
  by (simp add: trim_whitespace_only filterMessages_def messageMatchesSearch_def
      findMatchingMessageIndices_def)

theorem blank_query_search_witness:
  "whitespace_only [CHR 0x20, CHR 0x09]
   \<and> filterMessages None [msg0] [CHR 0x20, CHR 0x09] = [msg0]
   \<and> messageMatchesSearch None msg0 [CHR 0x20, CHR 0x09]
   \<and> findMatchingMessageIndices None [msg0] [CHR 0x20, CHR 0x09] = []"
proof -
  have "whitespace_only ([CHR 0x20] @ [CHR 0x09] @ [])"
    by (intro ws_more ws_empty) (simp_all add: js_whitespace_def)
  then have h: "whitespace_only [CHR 0x20, CHR 0x09]" by simp
  show ?thesis using h blank_query_search [OF h, of None "[msg0]"] by simp
qed

text \<open>
  C5 as stated fails: with the empty query and a list of one message, the index 0 of that
  message is not returned.
\<close>

theorem blank_query_indices_counterexample:
  "findMatchingMessageIndices None [msg0] [] = []
   \<and> filterMessages None [msg0] [] = [msg0]"
  by (simp add: findMatchingMessageIndices_def filterMessages_def trim_def trimStart_def
      trimEnd_def stripLeading_Nil)

section \<open>Highlighting keeps the text and the tags\<close>

definition count_lt :: "string \<Rightarrow> nat" where
  "count_lt s = length (filter (\<lambda>c. c = CHR ''<'') s)"

text \<open>
  The runs of the whole input: \<open>scan_runs\<close> follows \<open>scan\<close> and \<open>highlight_runs\<close> follows
  \<open>highlightSearchMatch\<close>, keeping every piece of text as a run where the program has
  already wrapped the matched ones; a tag that the loop copies is an unmatched run.
\<close>

fun scan_runs :: "string \<Rightarrow> string \<Rightarrow> bool \<Rightarrow> string \<Rightarrow> run list" where
  "scan_runs searchQuery cur inTag [] =
     (if cur \<noteq> [] then regex_runs searchQuery cur else [])"
| "scan_runs searchQuery cur inTag (c # cs) =
     (if c = CHR ''<'' then
        (if cur \<noteq> [] then regex_runs searchQuery cur else [])
          @ scan_runs searchQuery [c] True cs
      else if c = CHR ''>'' \<and> inTag then
        Unmatched (cur @ [c]) # scan_runs searchQuery [] False cs
      else scan_runs searchQuery (cur @ [c]) inTag cs)"

definition highlight_runs :: "string \<Rightarrow> string \<Rightarrow> run list" where
  "highlight_runs html query =
     (if trim query = [] \<or> html = [] then [Unmatched html]
      else if \<not> has_tag html then regex_runs (trim query) html
      else scan_runs (trim query) [] False html)"

lemma regex_runs_text: "concat (map run_text (regex_runs q s)) = s"
proof (induction q s rule: regex_runs.induct)
  case (1 q)
  then show ?case by simp
next
  case (2 q c cs)
  show ?case
  proof (cases "matches_at q (c # cs)")
    case True
    then obtain k where k: "length q = Suc k"
      by (cases q) (auto simp: matches_at_def)
    with True 2 show ?thesis by simp
  next
    case False
    with 2 show ?thesis by simp
  qed
qed

lemma scan_runs_text: "concat (map run_text (scan_runs q cur t s)) = cur @ s"
  by (induction q cur t s rule: scan_runs.induct) (auto simp: regex_runs_text)

lemma scan_runs_mark: "concat (map mark_run (scan_runs q cur t s)) = concat (scan q cur t s)"
  by (induction q cur t s rule: scan_runs.induct) (auto simp: replace_with_mark_def)

lemma count_lt_append: "count_lt (a @ b) = count_lt a + count_lt b"
  by (simp add: count_lt_def)

lemma count_lt_mark_run:
  "count_lt (mark_run r) = count_lt (run_text r) + (if is_Matched r then 2 else 0)"
  by (cases r) (simp_all add: count_lt_def MARK_OPEN_def MARK_CLOSE_def)

lemma count_lt_runs:
  "count_lt (concat (map mark_run rs))
     = count_lt (concat (map run_text rs)) + 2 * length (filter is_Matched rs)"
proof (induction rs)
  case Nil
  show ?case by (simp add: count_lt_def)
next
  case (Cons r rs)
  then show ?case by (simp add: count_lt_append count_lt_mark_run)
qed

lemma highlight_runs_text: "concat (map run_text (highlight_runs html q)) = html"
  by (simp add: highlight_runs_def regex_runs_text scan_runs_text)

lemma highlight_runs_mark:
  "concat (map mark_run (highlight_runs html q)) = highlightSearchMatch html q"
  by (simp add: highlight_runs_def highlightSearchMatch_def replace_with_mark_def
      scan_runs_mark)

lemma scan_runs_body:
  "CHR ''<'' \<notin> set body \<Longrightarrow> CHR ''>'' \<notin> set body \<Longrightarrow>
   scan_runs q cur True (body @ CHR ''>'' # post)
     = Unmatched (cur @ body @ [CHR ''>'']) # scan_runs q [] False post"
  by (induction body arbitrary: cur) auto

lemma scan_runs_tag:
  "CHR ''<'' \<notin> set body \<Longrightarrow> CHR ''>'' \<notin> set body \<Longrightarrow>
   scan_runs q cur t (pre @ CHR ''<'' # body @ CHR ''>'' # post)
     = scan_runs q cur t pre @ [Unmatched (CHR ''<'' # body @ [CHR ''>''])]
         @ scan_runs q [] False post"
  by (induction q cur t pre rule: scan_runs.induct) (auto simp: scan_runs_body)

lemma has_tag_here:
  "body \<noteq> [] \<Longrightarrow> CHR ''>'' \<notin> set body \<Longrightarrow>
   has_tag (pre @ CHR ''<'' # body @ CHR ''>'' # post)"
proof (induction pre)
  case Nil
  then show ?case by (simp add: takeWhile_until dropWhile_until)
next
  case (Cons a pre)
  then show ?case by simp
qed

text \<open>
  C8, as the code has it. For a query that is not blank: the output is the input with
  mark wrappers put around the matched runs and nothing else changed; the number of \<open><\<close>
  in the output is that of the input plus two for each wrapper; and every tag of the input
  that has no further \<open><\<close> inside (a \<open><\<close>, one or more characters other than \<open><\<close> and
  \<open>>\<close>, a \<open>>\<close>) is one unmatched run, so it is copied as it is and no wrapper is put
  inside it. Nothing is said of a span from a \<open><\<close> to the next \<open>>\<close> that has another
  \<open><\<close> inside.
\<close>

theorem highlight_keeps_tags:
  assumes "trim query \<noteq> []"
  shows "concat (map run_text (highlight_runs html query)) = html
    \<and> concat (map mark_run (highlight_runs html query)) = highlightSearchMatch html query
    \<and> count_lt (highlightSearchMatch html query)
        = count_lt html + 2 * length (filter is_Matched (highlight_runs html query))
    \<and> (\<forall>pre body post. html = pre @ CHR ''<'' # body @ CHR ''>'' # post \<and> body \<noteq> []
          \<and> CHR ''<'' \<notin> set body \<and> CHR ''>'' \<notin> set body \<longrightarrow>
          (\<exists>rs1 rs2. highlight_runs html query
                = rs1 @ [Unmatched (CHR ''<'' # body @ [CHR ''>''])] @ rs2
             \<and> concat (map run_text rs1) = pre \<and> concat (map run_text rs2) = post))"
proof (intro conjI allI impI)
  show "concat (map run_text (highlight_runs html query)) = html"
    by (rule highlight_runs_text)
  show "concat (map mark_run (highlight_runs html query)) = highlightSearchMatch html query"
    by (rule highlight_runs_mark)
  show "count_lt (highlightSearchMatch html query)
        = count_lt html + 2 * length (filter is_Matched (highlight_runs html query))"
    using count_lt_runs [of "highlight_runs html query"]
    by (simp add: highlight_runs_text highlight_runs_mark)
next
  fix pre body post
  assume h: "html = pre @ CHR ''<'' # body @ CHR ''>'' # post \<and> body \<noteq> []
          \<and> CHR ''<'' \<notin> set body \<and> CHR ''>'' \<notin> set body"
  then have tag: "has_tag html" using has_tag_here by blast
  from h have ne: "html \<noteq> []" by auto
  have "highlight_runs html query = scan_runs (trim query) [] False html"
    using assms tag ne by (simp add: highlight_runs_def)
  also have "\<dots> = scan_runs (trim query) [] False pre
         @ [Unmatched (CHR ''<'' # body @ [CHR ''>''])]
         @ scan_runs (trim query) [] False post"
    using h scan_runs_tag by blast
  finally show "\<exists>rs1 rs2. highlight_runs html query
                = rs1 @ [Unmatched (CHR ''<'' # body @ [CHR ''>''])] @ rs2
             \<and> concat (map run_text rs1) = pre \<and> concat (map run_text rs2) = post"
    using scan_runs_text [of "trim query" "[]" False pre]
      scan_runs_text [of "trim query" "[]" False post]
    by (intro exI [of _ "scan_runs (trim query) [] False pre"]
        exI [of _ "scan_runs (trim query) [] False post"]) simp
qed

theorem highlight_keeps_tags_witness:
  "trim ''hi'' \<noteq> []
   \<and> count_lt (highlightSearchMatch ''<b>Hi</b> hi'' ''hi'') = count_lt ''<b>Hi</b> hi'' + 2 * 2
   \<and> (\<exists>rs1 rs2. highlight_runs ''<b>Hi</b> hi'' ''hi'' = rs1 @ [Unmatched ''<b>''] @ rs2
          \<and> concat (map run_text rs1) = [] \<and> concat (map run_text rs2) = ''Hi</b> hi'')"
proof -
  have h: "trim ''hi'' \<noteq> []" by code_simp
  have n: "length (filter is_Matched (highlight_runs ''<b>Hi</b> hi'' ''hi'')) = 2"
    by code_simp
  have "''<b>Hi</b> hi'' = [] @ CHR ''<'' # ''b'' @ CHR ''>'' # ''Hi</b> hi'' \<and> ''b'' \<noteq> []
          \<and> CHR ''<'' \<notin> set ''b'' \<and> CHR ''>'' \<notin> set ''b''" by simp
  with highlight_keeps_tags [OF h, of "''<b>Hi</b> hi''"] n h show ?thesis
    by (metis append_Cons append_Nil)
qed

text \<open>
  C8 as stated fails: in \<open><a <b>x\<close> the span \<open><a <b>\<close> runs from a \<open><\<close> to the next
  \<open>>\<close>, and the query \<open>a\<close> is wrapped inside it.
\<close>

theorem highlight_nested_tag_counterexample:
  \<open>highlightSearchMatch ''<a <b>x'' ''a''
     = ''<<mark style="background-color: rgba(255, 255, 0, 0.4); padding: 2px 0;">a</mark> <b>x''\<close>
  by code_simp

end
